theory Spec2Isabelle
  imports Complex_Main
begin

section \<open>JavaScript numbers\<close>

text \<open>
  The component computes with JavaScript Numbers: attribute values read by
  \<^verbatim>\<open>parseFloat\<close>, the measured box, and the arithmetic of the two SVG templates.
  A Number is modelled as an exact rational or one of the three special values. The
  model idealises IEEE binary64 in three respects: arithmetic is exact (no rounding to
  53 bits, no overflow to infinity), there is a single zero (no \<^verbatim>\<open>-0\<close>, which
  \<^verbatim>\<open>===\<close> does not tell from \<^verbatim>\<open>0\<close> and which prints as \<^verbatim>\<open>0\<close>), and strings are
  sequences of code units below 256. An exact result can differ from the code's where
  the code rounds: \<^verbatim>\<open>100 - 2.4e-15\<close> is \<^verbatim>\<open>100\<close> in binary64. A statement that takes the
  ceiling or the floor of a computed Number therefore bounds its inputs to the range
  where the two agree.
\<close>

datatype jsnum = NaN | PosInfinity | NegInfinity | Fin rat

fun js_neg :: "jsnum \<Rightarrow> jsnum" where
  "js_neg NaN = NaN"
| "js_neg PosInfinity = NegInfinity"
| "js_neg NegInfinity = PosInfinity"
| "js_neg (Fin a) = Fin (- a)"

text \<open>\<^verbatim>\<open>a + b\<close> on Numbers.\<close>

fun js_add :: "jsnum \<Rightarrow> jsnum \<Rightarrow> jsnum" where
  "js_add NaN _ = NaN"
| "js_add _ NaN = NaN"
| "js_add PosInfinity NegInfinity = NaN"
| "js_add NegInfinity PosInfinity = NaN"
| "js_add PosInfinity _ = PosInfinity"
| "js_add NegInfinity _ = NegInfinity"
| "js_add (Fin a) PosInfinity = PosInfinity"
| "js_add (Fin a) NegInfinity = NegInfinity"
| "js_add (Fin a) (Fin b) = Fin (a + b)"

text \<open>
  \<^verbatim>\<open>a - b\<close> on Numbers, exact like the other operations (the code's result is the
  nearest binary64 value).
\<close>

definition js_sub :: "jsnum \<Rightarrow> jsnum \<Rightarrow> jsnum" where
  "js_sub a b = js_add a (js_neg b)"

text \<open>The infinity whose sign is that of a non-zero rational.\<close>

definition signed_infinity :: "rat \<Rightarrow> jsnum" where
  "signed_infinity a = (if 0 < a then PosInfinity else NegInfinity)"

text \<open>\<^verbatim>\<open>a * b\<close> on Numbers: zero times an infinity is NaN.\<close>

fun js_mul :: "jsnum \<Rightarrow> jsnum \<Rightarrow> jsnum" where
  "js_mul NaN _ = NaN"
| "js_mul _ NaN = NaN"
| "js_mul PosInfinity PosInfinity = PosInfinity"
| "js_mul PosInfinity NegInfinity = NegInfinity"
| "js_mul NegInfinity PosInfinity = NegInfinity"
| "js_mul NegInfinity NegInfinity = PosInfinity"
| "js_mul PosInfinity (Fin b) = (if b = 0 then NaN else signed_infinity b)"
| "js_mul NegInfinity (Fin b) = (if b = 0 then NaN else signed_infinity (- b))"
| "js_mul (Fin a) PosInfinity = (if a = 0 then NaN else signed_infinity a)"
| "js_mul (Fin a) NegInfinity = (if a = 0 then NaN else signed_infinity (- a))"
| "js_mul (Fin a) (Fin b) = Fin (a * b)"

text \<open>
  \<^verbatim>\<open>a / b\<close> on Numbers. Division by zero does not raise in JavaScript: a non-zero
  numerator gives an infinity, zero by zero gives NaN. (HOL's own \<open>a / 0\<close> is \<open>0\<close>, so
  the case is written out.)
\<close>

fun js_div :: "jsnum \<Rightarrow> jsnum \<Rightarrow> jsnum" where
  "js_div NaN _ = NaN"
| "js_div _ NaN = NaN"
| "js_div PosInfinity PosInfinity = NaN"
| "js_div PosInfinity NegInfinity = NaN"
| "js_div NegInfinity PosInfinity = NaN"
| "js_div NegInfinity NegInfinity = NaN"
| "js_div PosInfinity (Fin b) = (if b < 0 then NegInfinity else PosInfinity)"
| "js_div NegInfinity (Fin b) = (if b < 0 then PosInfinity else NegInfinity)"
| "js_div (Fin a) PosInfinity = Fin 0"
| "js_div (Fin a) NegInfinity = Fin 0"
| "js_div (Fin a) (Fin b) =
     (if b = 0 then (if a = 0 then NaN else signed_infinity a) else Fin (a / b))"

text \<open>\<^verbatim>\<open>a > b\<close> on Numbers: false as soon as one side is NaN.\<close>

fun js_gt :: "jsnum \<Rightarrow> jsnum \<Rightarrow> bool" where
  "js_gt NaN _ = False"
| "js_gt _ NaN = False"
| "js_gt PosInfinity PosInfinity = False"
| "js_gt PosInfinity _ = True"
| "js_gt NegInfinity _ = False"
| "js_gt (Fin a) PosInfinity = False"
| "js_gt (Fin a) NegInfinity = True"
| "js_gt (Fin a) (Fin b) = (b < a)"

text \<open>\<^verbatim>\<open>a <= b\<close> on Numbers: false as soon as one side is NaN.\<close>

fun js_le :: "jsnum \<Rightarrow> jsnum \<Rightarrow> bool" where
  "js_le NaN _ = False"
| "js_le _ NaN = False"
| "js_le a b = (\<not> js_gt a b)"

text \<open>\<^verbatim>\<open>a === b\<close> on Numbers: NaN is not equal to itself.\<close>

definition js_strict_eq :: "jsnum \<Rightarrow> jsnum \<Rightarrow> bool" where
  "js_strict_eq a b \<longleftrightarrow> a \<noteq> NaN \<and> a = b"

text \<open>\<^verbatim>\<open>!x\<close> on a Number: zero and NaN are the falsy Numbers.\<close>

definition js_not :: "jsnum \<Rightarrow> bool" where
  "js_not x \<longleftrightarrow> x = Fin 0 \<or> x = NaN"

text \<open>\<^verbatim>\<open>Math.round\<close> rounds to the nearest integer, ties towards \<open>+\<infinity>\<close>.\<close>

fun Math_round :: "jsnum \<Rightarrow> jsnum" where
  "Math_round (Fin a) = Fin (of_int \<lfloor>a + 1 / 2\<rfloor>)"
| "Math_round x = x"

fun Math_ceil :: "jsnum \<Rightarrow> jsnum" where
  "Math_ceil (Fin a) = Fin (of_int \<lceil>a\<rceil>)"
| "Math_ceil x = x"

fun Math_floor :: "jsnum \<Rightarrow> jsnum" where
  "Math_floor (Fin a) = Fin (of_int \<lfloor>a\<rfloor>)"
| "Math_floor x = x"

subsection \<open>Reading a Number: \<^verbatim>\<open>parseFloat\<close>\<close>

text \<open>
  ECMAScript's \<^verbatim>\<open>parseFloat\<close> skips leading white space and reads the longest prefix
  that is a \<^verbatim>\<open>StrDecimalLiteral\<close>: an optional sign, then \<^verbatim>\<open>Infinity\<close> or decimal
  digits with an optional fraction and an optional exponent. When no prefix is one,
  the result is NaN. Whatever follows the prefix is ignored.
\<close>

definition is_white_space :: "char \<Rightarrow> bool" where
  "is_white_space c \<longleftrightarrow>
     c \<in> set [CHR 0x09, CHR 0x0A, CHR 0x0B, CHR 0x0C, CHR 0x0D, CHR 0x20, CHR 0xA0]"

definition is_digit :: "char \<Rightarrow> bool" where
  "is_digit c \<longleftrightarrow> 48 \<le> (of_char c :: nat) \<and> (of_char c :: nat) \<le> 57"

definition digit_val :: "char \<Rightarrow> nat" where
  "digit_val c = of_char c - 48"

definition nat_of_digits :: "string \<Rightarrow> nat" where
  "nat_of_digits ds = foldl (\<lambda>a c. 10 * a + digit_val c) 0 ds"

text \<open>
  The value of an optional \<^verbatim>\<open>ExponentPart\<close> at the head of the rest: \<^verbatim>\<open>e\<close> or \<^verbatim>\<open>E\<close>,
  an optional sign, at least one digit. A malformed exponent is not part of the
  prefix, so it counts as exponent zero.
\<close>

definition signed_integer :: "string \<Rightarrow> int" where
  "signed_integer s =
     (let neg = (case s of [] \<Rightarrow> False | c # _ \<Rightarrow> c = CHR ''-'');
          u = (case s of [] \<Rightarrow> [] | c # t \<Rightarrow> if c = CHR ''-'' \<or> c = CHR ''+'' then t else s);
          ds = takeWhile is_digit u
      in if neg then - int (nat_of_digits ds) else int (nat_of_digits ds))"

definition exponent_part :: "string \<Rightarrow> int" where
  "exponent_part s =
     (case s of
        [] \<Rightarrow> 0
      | c # t \<Rightarrow> if c = CHR ''e'' \<or> c = CHR ''E'' then signed_integer t else 0)"

definition unsigned_decimal :: "string \<Rightarrow> jsnum" where
  "unsigned_decimal s =
     (if take 8 s = ''Infinity'' then PosInfinity
      else
        let ip = takeWhile is_digit s;
            r1 = dropWhile is_digit s;
            has_dot = (case r1 of [] \<Rightarrow> False | c # _ \<Rightarrow> c = CHR ''.'');
            fp = (if has_dot then takeWhile is_digit (tl r1) else []);
            r2 = (if has_dot then dropWhile is_digit (tl r1) else r1)
        in if ip = [] \<and> fp = [] then NaN
           else Fin (of_nat (nat_of_digits (ip @ fp))
                       * 10 powi (exponent_part r2 - int (length fp))))"

definition parseFloat :: "string \<Rightarrow> jsnum" where
  "parseFloat s =
     (case dropWhile is_white_space s of
        [] \<Rightarrow> NaN
      | c # t \<Rightarrow>
          if c = CHR ''-'' then js_neg (unsigned_decimal t)
          else if c = CHR ''+'' then unsigned_decimal t
          else unsigned_decimal (c # t))"

subsection \<open>Printing a Number: \<^verbatim>\<open>Number::toString\<close>\<close>

text \<open>
  A template literal \<^verbatim>\<open>${x}\<close> prints a Number with ECMAScript's \<^verbatim>\<open>Number::toString\<close>
  in radix 10. For a positive \<open>x\<close> it takes the digits \<open>ds\<close> of the integer \<open>s\<close> and the
  exponent \<open>n\<close> with \<open>x = s * 10 ^ (n - k)\<close>, \<open>k = length ds\<close> as small as possible, and
  chooses between positional and exponent notation by \<open>n\<close>.
\<close>

definition digit_char :: "nat \<Rightarrow> char" where
  "digit_char d = char_of (48 + d)"

function digits_of_nat :: "nat \<Rightarrow> string" where
  "digits_of_nat n =
     (if n < 10 then [digit_char n] else digits_of_nat (n div 10) @ [digit_char (n mod 10)])"
  by pat_completeness auto
termination
  by (relation "measure id") auto

declare digits_of_nat.simps [simp del]

definition number_format :: "string \<Rightarrow> int \<Rightarrow> string" where
  "number_format ds n =
     (let k = int (length ds) in
      if k \<le> n \<and> n \<le> 21 then ds @ replicate (nat (n - k)) (CHR ''0'')
      else if 0 < n \<and> n \<le> 21 then take (nat n) ds @ ''.'' @ drop (nat n) ds
      else if - 6 < n \<and> n \<le> 0 then ''0.'' @ replicate (nat (- n)) (CHR ''0'') @ ds
      else
        (let e = n - 1;
             c = (if e < 0 then ''-'' else ''+'');
             d = digits_of_nat (nat \<bar>e\<bar>)
         in if k = 1 then ds @ ''e'' @ c @ d
            else take 1 ds @ ''.'' @ drop 1 ds @ ''e'' @ c @ d))"

text \<open>
  The least \<open>j\<close> from which \<open>q\<close> divides \<open>10 ^ j\<close>, searched with fuel: for a number
  with a finite decimal expansion and denominator \<open>q\<close>, fuel \<open>q\<close> is enough.
\<close>

fun decimal_places :: "nat \<Rightarrow> int \<Rightarrow> nat \<Rightarrow> nat" where
  "decimal_places 0 q j = j"
| "decimal_places (Suc f) q j = (if q dvd 10 ^ j then j else decimal_places f q (Suc j))"

definition strip_zeros :: "string \<Rightarrow> string" where
  "strip_zeros ds = rev (dropWhile (\<lambda>c. c = CHR ''0'') (rev ds))"

text \<open>
  The digits and the exponent \<open>n\<close> of a positive rational \<open>p / q\<close>: scale to an integer,
  print it, and drop the trailing zeros. (Every binary64 value has a finite decimal
  expansion; a rational without one is cut after \<open>q\<close> places.)
\<close>

definition decimal_of :: "rat \<Rightarrow> string \<times> int" where
  "decimal_of a =
     (let (p, q) = quotient_of a;
          j = decimal_places (nat q) q 0;
          ds0 = digits_of_nat (nat ((p * 10 ^ j) div q))
      in (strip_zeros ds0, int (length ds0) - int j))"

definition toString :: "jsnum \<Rightarrow> string" where
  "toString x =
     (case x of
        NaN \<Rightarrow> ''NaN''
      | PosInfinity \<Rightarrow> ''Infinity''
      | NegInfinity \<Rightarrow> ''-Infinity''
      | Fin a \<Rightarrow>
          if a = 0 then ''0''
          else (if a < 0 then ''-'' else '''')
                 @ (let (ds, n) = decimal_of \<bar>a\<bar> in number_format ds n))"

text \<open>
  The Numbers the printer is exact on: those with a finite decimal expansion, which
  is every Number that \<open>parseFloat\<close> or \<open>Math_round\<close> returns.
\<close>

definition finite_expansion :: "rat \<Rightarrow> bool" where
  "finite_expansion a \<longleftrightarrow> (\<exists>j::nat. a * 10 ^ j \<in> \<int>)"

definition printable :: "jsnum \<Rightarrow> bool" where
  "printable x \<longleftrightarrow> (case x of Fin a \<Rightarrow> finite_expansion a | _ \<Rightarrow> True)"

section \<open>The component's data\<close>

text \<open>
  What the DOM reports when \<^verbatim>\<open>_updateFilter\<close> runs: the box measured by
  \<^verbatim>\<open>getBoundingClientRect()\<close> and the element's attributes (\<^verbatim>\<open>getAttribute\<close> gives
  \<^verbatim>\<open>null\<close> for an absent attribute, here \<open>None\<close>).
\<close>

record dom =
  bounding_width :: jsnum
  bounding_height :: jsnum
  attributes :: "string \<rightharpoonup> string"

text \<open>
  The two SVG documents are built as text by template literals. They are modelled by
  their element structure, with a field for each attribute of the templates but the
  \<^verbatim>\<open>viewBox\<close>, which repeats width and height, and the namespace; the serialisation
  (white space, the percent-encoding of \<^verbatim>\<open>encodeURIComponent\<close>) is not modelled.
\<close>

datatype svg_length = Number jsnum | Percentage jsnum

record linear_gradient =
  grad_id :: string
  grad_x1 :: svg_length
  grad_x2 :: svg_length
  grad_y1 :: svg_length
  grad_y2 :: svg_length
  grad_stops :: "(string \<times> string) list"

record svg_rect =
  rect_x :: jsnum
  rect_y :: jsnum
  rect_height :: jsnum
  rect_width :: jsnum
  rect_fill :: string
  rect_class :: "string option"
  rect_rx :: "jsnum option"
  rect_ry :: "jsnum option"
  rect_blur_px :: "jsnum option"

record displacement_map =
  map_height :: jsnum
  map_width :: jsnum
  map_mix_blend_mode :: string
  map_gradients :: "linear_gradient list"
  map_background :: svg_rect
  map_group_blur_px :: jsnum
  map_group :: "svg_rect list"

datatype filter_primitive =
    FeImage jsnum jsnum jsnum jsnum displacement_map string
  | FeDisplacementMap "string option" string string jsnum string string
  | FeColorMatrix string "int list list" string
  | FeBlend "string option" string string

record displacement_filter =
  filter_height :: jsnum
  filter_width :: jsnum
  filter_id :: string
  filter_color_interpolation :: string
  filter_primitives :: "filter_primitive list"

text \<open>
  The value \<^verbatim>\<open>_getDisplacementFilter\<close> returns: the data URL of the document and the
  fragment that names the filter in it.
\<close>

datatype filter_url = DataUrl displacement_filter string

text \<open>A value written to a CSS custom property: plain text, or \<^verbatim>\<open>url('...')\<close>.\<close>

datatype css_value = CssText string | CssUrl filter_url

text \<open>The calls on \<^verbatim>\<open>this.style\<close>, the channel to the presentation layer.\<close>

datatype style_op = SetProperty string css_value | RemoveProperty string

text \<open>
  The fields of an instance that \<^verbatim>\<open>_updateFilter\<close> reads and writes. \<^verbatim>\<open>_prev\<close> starts
  as the empty object, whose \<^verbatim>\<open>key\<close> and \<^verbatim>\<open>blur\<close> are \<^verbatim>\<open>undefined\<close> (here \<open>None\<close>).
\<close>

record element =
  prev_key :: "string option"
  prev_blur :: "jsnum option"
  advSupported :: bool
  filterId :: string

section \<open>The component's operations\<close>

text \<open>\<^verbatim>\<open>_getNumberAttribute\<close>: an absent attribute and the empty string are falsy.\<close>

definition getNumberAttribute :: "(string \<rightharpoonup> string) \<Rightarrow> string \<Rightarrow> jsnum \<Rightarrow> jsnum" where
  "getNumberAttribute attrs name defaultValue =
     (case attrs name of
        None \<Rightarrow> defaultValue
      | Some v \<Rightarrow> if v \<noteq> [] then parseFloat v else defaultValue)"

definition hasAttribute :: "(string \<rightharpoonup> string) \<Rightarrow> string \<Rightarrow> bool" where
  "hasAttribute attrs name \<longleftrightarrow> attrs name \<noteq> None"

text \<open>\<^verbatim>\<open>_isInteractive\<close>.\<close>

definition isInteractive :: "(string \<rightharpoonup> string) \<Rightarrow> bool" where
  "isInteractive attrs \<longleftrightarrow>
     (hasAttribute attrs ''href'' \<or> hasAttribute attrs ''interactive'')
       \<and> \<not> hasAttribute attrs ''disabled''"

text \<open>
  \<^verbatim>\<open>_getDisplacementMap({ height, width, radius, depth })\<close>. The two gradients are inset
  by the corner radius over the extent, the inner rectangle by the depth.
\<close>

definition getDisplacementMap ::
  "string \<Rightarrow> jsnum \<Rightarrow> jsnum \<Rightarrow> jsnum \<Rightarrow> jsnum \<Rightarrow> displacement_map" where
  "getDisplacementMap fid height width radius depth =
     \<lparr> map_height = height,
       map_width = width,
       map_mix_blend_mode = ''screen'',
       map_gradients =
         [ \<lparr> grad_id = ''Y-'' @ fid,
             grad_x1 = Number (Fin 0),
             grad_x2 = Number (Fin 0),
             grad_y1 = Percentage (Math_ceil (js_mul (js_div radius height) (Fin 15))),
             grad_y2 = Percentage
               (Math_floor (js_sub (Fin 100) (js_mul (js_div radius height) (Fin 15)))),
             grad_stops = [(''0%'', ''#0F0''), (''100%'', ''#000'')] \<rparr>,
           \<lparr> grad_id = ''X-'' @ fid,
             grad_x1 = Percentage (Math_ceil (js_mul (js_div radius width) (Fin 15))),
             grad_x2 = Percentage
               (Math_floor (js_sub (Fin 100) (js_mul (js_div radius width) (Fin 15)))),
             grad_y1 = Number (Fin 0),
             grad_y2 = Number (Fin 0),
             grad_stops = [(''0%'', ''#F00''), (''100%'', ''#000'')] \<rparr> ],
       map_background =
         \<lparr> rect_x = Fin 0, rect_y = Fin 0, rect_height = height, rect_width = width,
           rect_fill = ''#808080'', rect_class = None,
           rect_rx = None, rect_ry = None, rect_blur_px = None \<rparr>,
       map_group_blur_px = Fin 2,
       map_group =
         [ \<lparr> rect_x = Fin 0, rect_y = Fin 0, rect_height = height, rect_width = width,
             rect_fill = ''#000080'', rect_class = None,
             rect_rx = None, rect_ry = None, rect_blur_px = None \<rparr>,
           \<lparr> rect_x = Fin 0, rect_y = Fin 0, rect_height = height, rect_width = width,
             rect_fill = ''url(#Y-'' @ fid @ '')'', rect_class = Some ''mix'',
             rect_rx = None, rect_ry = None, rect_blur_px = None \<rparr>,
           \<lparr> rect_x = Fin 0, rect_y = Fin 0, rect_height = height, rect_width = width,
             rect_fill = ''url(#X-'' @ fid @ '')'', rect_class = Some ''mix'',
             rect_rx = None, rect_ry = None, rect_blur_px = None \<rparr>,
           \<lparr> rect_x = depth, rect_y = depth,
             rect_height = js_sub height (js_mul (Fin 2) depth),
             rect_width = js_sub width (js_mul (Fin 2) depth),
             rect_fill = ''#808080'', rect_class = None,
             rect_rx = Some radius, rect_ry = Some radius, rect_blur_px = Some depth \<rparr> ] \<rparr>"

text \<open>
  \<^verbatim>\<open>_getDisplacementFilter({ height, width, radius, depth, strength,
  chromaticAberration })\<close>. The primitives are listed in document order. \<open>FeImage\<close>
  carries \<^verbatim>\<open>x\<close>, \<^verbatim>\<open>y\<close>, \<^verbatim>\<open>height\<close>, \<^verbatim>\<open>width\<close>, \<^verbatim>\<open>href\<close> and \<^verbatim>\<open>result\<close>;
  \<open>FeDisplacementMap\<close> its \<^verbatim>\<open>transform-origin\<close> (when given), \<^verbatim>\<open>in\<close>, \<^verbatim>\<open>in2\<close>, \<^verbatim>\<open>scale\<close>
  and the two channel selectors; \<open>FeColorMatrix\<close> its \<^verbatim>\<open>type\<close>, the rows of \<^verbatim>\<open>values\<close>
  and \<^verbatim>\<open>result\<close>; \<open>FeBlend\<close> its \<^verbatim>\<open>in\<close> (when given), \<^verbatim>\<open>in2\<close> and \<^verbatim>\<open>mode\<close>.
\<close>

definition getDisplacementFilter ::
  "string \<Rightarrow> jsnum \<Rightarrow> jsnum \<Rightarrow> jsnum \<Rightarrow> jsnum \<Rightarrow> jsnum \<Rightarrow> jsnum \<Rightarrow> filter_url" where
  "getDisplacementFilter fid height width radius depth strength chromaticAberration =
     DataUrl
       \<lparr> filter_height = height,
         filter_width = width,
         filter_id = ''displace-'' @ fid,
         filter_color_interpolation = ''sRGB'',
         filter_primitives =
           [ FeImage (Fin 0) (Fin 0) height width
               (getDisplacementMap fid height width radius depth) ''displacementMap'',
             FeDisplacementMap (Some ''center'') ''SourceGraphic'' ''displacementMap''
               (js_add strength (js_mul chromaticAberration (Fin 2))) ''R'' ''G'',
             FeColorMatrix ''matrix''
               [[1, 0, 0, 0, 0],
                [0, 0, 0, 0, 0],
                [0, 0, 0, 0, 0],
                [0, 0, 0, 1, 0]] ''displacedR'',
             FeDisplacementMap None ''SourceGraphic'' ''displacementMap''
               (js_add strength chromaticAberration) ''R'' ''G'',
             FeColorMatrix ''matrix''
               [[0, 0, 0, 0, 0],
                [0, 1, 0, 0, 0],
                [0, 0, 0, 0, 0],
                [0, 0, 0, 1, 0]] ''displacedG'',
             FeDisplacementMap None ''SourceGraphic'' ''displacementMap''
               strength ''R'' ''G'',
             FeColorMatrix ''matrix''
               [[0, 0, 0, 0, 0],
                [0, 0, 0, 0, 0],
                [0, 0, 1, 0, 0],
                [0, 0, 0, 1, 0]] ''displacedB'',
             FeBlend (Some ''displacedR'') ''displacedG'' ''screen'',
             FeBlend None ''displacedB'' ''screen'' ] \<rparr>
       (''displace-'' @ fid)"

text \<open>
  The parameters of one update cycle, as \<^verbatim>\<open>_updateFilter\<close> computes them after its
  guard: the box quantised to integers, the fixed corner radius, and the four numeric
  attributes with their defaults.
\<close>

record effect_parameters =
  param_height :: jsnum
  param_width :: jsnum
  param_radius :: jsnum
  param_depth :: jsnum
  param_strength :: jsnum
  param_chromaticAberration :: jsnum
  param_blur :: jsnum

definition resolveParameters :: "dom \<Rightarrow> effect_parameters" where
  "resolveParameters d =
     \<lparr> param_height = Math_round (bounding_height d),
       param_width = Math_round (bounding_width d),
       param_radius = Fin 16,
       param_depth = getNumberAttribute (attributes d) ''depth'' (Fin 10),
       param_strength = getNumberAttribute (attributes d) ''strength'' (Fin 100),
       param_chromaticAberration = getNumberAttribute (attributes d) ''chromatic'' (Fin 0),
       param_blur = getNumberAttribute (attributes d) ''blur'' (Fin 2) \<rparr>"

text \<open>
  The cache key of \<^verbatim>\<open>_updateFilter\<close>:
  \<^verbatim>\<open>`${width}x${height}:${depth}:${strength}:${chromaticAberration}`\<close>.
\<close>

definition cacheKey :: "effect_parameters \<Rightarrow> string" where
  "cacheKey p =
     toString (param_width p) @ ''x'' @ toString (param_height p) @ '':''
       @ toString (param_depth p) @ '':'' @ toString (param_strength p) @ '':''
       @ toString (param_chromaticAberration p)"

text \<open>
  \<^verbatim>\<open>this._prev.blur !== blur\<close>: an \<^verbatim>\<open>undefined\<close> field differs from every Number.
\<close>

definition blur_changed :: "jsnum option \<Rightarrow> jsnum \<Rightarrow> bool" where
  "blur_changed prev blur =
     (case prev of None \<Rightarrow> True | Some b \<Rightarrow> \<not> js_strict_eq b blur)"

text \<open>
  \<^verbatim>\<open>_updateFilter(force = false)\<close>. It returns the instance after the call and the
  calls it made on \<^verbatim>\<open>this.style\<close>, in order.
\<close>

definition updateFilter :: "bool \<Rightarrow> dom \<Rightarrow> element \<Rightarrow> element \<times> style_op list" where
  "updateFilter force d el =
     (if js_not (bounding_width d) \<or> js_not (bounding_height d) then (el, [])
      else
        let p = resolveParameters d;
            blur_ops =
              (if blur_changed (prev_blur el) (param_blur p)
               then [SetProperty ''--lg-blur'' (CssText (toString (param_blur p) @ ''px''))]
               else []);
            state_ops =
              (if isInteractive (attributes d)
               then [SetProperty ''--lg-opacity'' (CssText ''0.85''),
                     SetProperty ''--lg-scale'' (CssText ''1'')]
               else [RemoveProperty ''--lg-opacity'', RemoveProperty ''--lg-scale'']);
            key = cacheKey p
        in
          if \<not> force \<and> prev_key el = Some key then (el, blur_ops @ state_ops)
          else
            let el' = el\<lparr>prev_key := Some key, prev_blur := Some (param_blur p)\<rparr> in
            if advSupported el
                 \<and> (js_gt (param_strength p) (Fin 0)
                      \<or> js_gt (param_chromaticAberration p) (Fin 0))
            then
              (el', blur_ops @ state_ops @
                 [SetProperty ''--lg-filter''
                    (CssUrl (getDisplacementFilter (filterId el) (param_height p)
                               (param_width p) (param_radius p) (param_depth p)
                               (param_strength p) (param_chromaticAberration p)))])
            else (el', blur_ops @ state_ops @ [SetProperty ''--lg-filter'' (CssText ''none'')]))"

text \<open>The values a list of style calls sets a property to, in order.\<close>

fun writes_to :: "string \<Rightarrow> style_op list \<Rightarrow> css_value list" where
  "writes_to name [] = []"
| "writes_to name (SetProperty n v # ops) =
     (if n = name then v # writes_to name ops else writes_to name ops)"
| "writes_to name (RemoveProperty n # ops) = writes_to name ops"

text \<open>
  The reference that the end of \<^verbatim>\<open>_updateFilter\<close> publishes for given parameters, and
  the relation that holds between the stored key and the style calls made so far:
  when a key is stored, it is the key of some cycle's parameters, and the reference last
  published is the one for those parameters.
\<close>

definition published_filter :: "element \<Rightarrow> effect_parameters \<Rightarrow> css_value" where
  "published_filter el p =
     (if advSupported el
           \<and> (js_gt (param_strength p) (Fin 0) \<or> js_gt (param_chromaticAberration p) (Fin 0))
      then CssUrl (getDisplacementFilter (filterId el) (param_height p) (param_width p)
                     (param_radius p) (param_depth p) (param_strength p)
                     (param_chromaticAberration p))
      else CssText ''none'')"

definition coherent :: "element \<Rightarrow> style_op list \<Rightarrow> bool" where
  "coherent el hist \<longleftrightarrow>
     (case prev_key el of
        None \<Rightarrow> True
      | Some k \<Rightarrow>
          \<exists>d. k = cacheKey (resolveParameters d)
             \<and> writes_to ''--lg-filter'' hist \<noteq> []
             \<and> last (writes_to ''--lg-filter'' hist) = published_filter el (resolveParameters d))"

text \<open>The filter documents a list of style calls publishes.\<close>

fun assembled_filters :: "style_op list \<Rightarrow> filter_url list" where
  "assembled_filters [] = []"
| "assembled_filters (SetProperty n (CssUrl u) # ops) = u # assembled_filters ops"
| "assembled_filters (SetProperty n (CssText t) # ops) = assembled_filters ops"
| "assembled_filters (RemoveProperty n # ops) = assembled_filters ops"

text \<open>Successive calls of \<^verbatim>\<open>_updateFilter()\<close> on one instance: the style calls of each.\<close>

fun run_cycles :: "dom list \<Rightarrow> element \<Rightarrow> style_op list list" where
  "run_cycles [] el = []"
| "run_cycles (d # ds) el =
     snd (updateFilter False d el) # run_cycles ds (fst (updateFilter False d el))"

subsection \<open>Reading the assembled filter\<close>

text \<open>
  What a filter computes, as an expression over its inputs. SVG evaluates the
  primitives in document order; \<^verbatim>\<open>in\<close> and \<^verbatim>\<open>in2\<close> name the source graphic or an earlier
  \<^verbatim>\<open>result\<close>, and a primitive without \<^verbatim>\<open>in\<close> reads the result of the primitive before
  it (the source graphic for the first one). The filter's output is the result of the
  last primitive.
\<close>

datatype image =
    SourceGraphic
  | MapImage displacement_map
  | Displaced image image jsnum string string
  | ColorMatrix "int list list" image
  | Blend string image image
  | Unbound string

definition named_input :: "(string \<rightharpoonup> image) \<Rightarrow> string \<Rightarrow> image" where
  "named_input results name =
     (if name = ''SourceGraphic'' then SourceGraphic
      else case results name of None \<Rightarrow> Unbound name | Some im \<Rightarrow> im)"

fun filter_result :: "(string \<rightharpoonup> image) \<Rightarrow> image \<Rightarrow> filter_primitive list \<Rightarrow> image" where
  "filter_result results previous [] = previous"
| "filter_result results previous (FeImage x y h w m res # ps) =
     filter_result (results(res \<mapsto> MapImage m)) (MapImage m) ps"
| "filter_result results previous (FeDisplacementMap origin i i2 scale xsel ysel # ps) =
     filter_result results
       (Displaced (named_input results i) (named_input results i2) scale xsel ysel) ps"
| "filter_result results previous (FeColorMatrix ty vals res # ps) =
     filter_result (results(res \<mapsto> ColorMatrix vals previous)) (ColorMatrix vals previous) ps"
| "filter_result results previous (FeBlend i i2 mode # ps) =
     filter_result results
       (Blend mode (case i of None \<Rightarrow> previous | Some n \<Rightarrow> named_input results n)
          (named_input results i2)) ps"

text \<open>The scales of the displacement passes of a filter, in document order.\<close>

fun displacement_scales :: "filter_primitive list \<Rightarrow> jsnum list" where
  "displacement_scales [] = []"
| "displacement_scales (FeDisplacementMap origin i i2 scale xsel ysel # ps) =
     scale # displacement_scales ps"
| "displacement_scales (FeImage x y h w m res # ps) = displacement_scales ps"
| "displacement_scales (FeColorMatrix ty vals res # ps) = displacement_scales ps"
| "displacement_scales (FeBlend i i2 mode # ps) = displacement_scales ps"

text \<open>
  \<^verbatim>\<open>feColorMatrix type="matrix"\<close> maps a pixel \<open>[r, g, b, a]\<close> to the product of the
  4 x 5 matrix with \<open>[r, g, b, a, 1]\<close>.
\<close>

definition apply_color_matrix :: "int list list \<Rightarrow> rat list \<Rightarrow> rat list" where
  "apply_color_matrix m px =
     map (\<lambda>row. sum_list (map2 (\<lambda>c v. of_int c * v) row (px @ [1]))) m"

fun filter_document :: "filter_url \<Rightarrow> displacement_filter" where
  "filter_document (DataUrl f fragment) = f"

subsection \<open>The gradient insets as the specification describes them\<close>

text \<open>
  The inset the specification describes for the leading side of a gradient:
  \<open>ceil(depth / extent * 15)\<close> percent.
\<close>

definition spec_leading_inset :: "jsnum \<Rightarrow> jsnum \<Rightarrow> svg_length" where
  "spec_leading_inset depth extent =
     Percentage (Math_ceil (js_mul (js_div depth extent) (Fin 15)))"

section \<open>Scheduling recomputes\<close>

text \<open>
  An instance with its \<^verbatim>\<open>_pending\<close> flag, the callbacks it has handed to
  \<^verbatim>\<open>requestAnimationFrame\<close> that have not run yet, and two observations: how many times
  \<^verbatim>\<open>_updateFilter\<close> has been called, and every call made on \<^verbatim>\<open>this.style\<close>.
\<close>

record component =
  comp_element :: element
  pending :: bool
  frame_requests :: nat
  recomputes :: nat
  style_log :: "style_op list"

text \<open>A call \<^verbatim>\<open>this._updateFilter()\<close>.\<close>

definition recompute :: "dom \<Rightarrow> component \<Rightarrow> component" where
  "recompute d c =
     c \<lparr> comp_element := fst (updateFilter False d (comp_element c)),
         style_log := style_log c @ snd (updateFilter False d (comp_element c)),
         recomputes := recomputes c + 1 \<rparr>"





section \<open>The capability probe\<close>

text \<open>
  What \<^verbatim>\<open>CSS.supports('backdrop-filter', 'url(#x)')\<close> does when it is called: it
  answers, or it throws (also when \<^verbatim>\<open>CSS\<close> is not defined).
\<close>

datatype css_supports = Answers bool | Throws

text \<open>\<^verbatim>\<open>_supportsAdvancedFilters\<close>: the \<^verbatim>\<open>catch\<close> turns an exception into \<^verbatim>\<open>false\<close>.\<close>

definition supportsAdvancedFilters :: "css_supports \<Rightarrow> bool" where
  "supportsAdvancedFilters env = (case env of Answers b \<Rightarrow> b | Throws \<Rightarrow> False)"

text \<open>
  The static field \<^verbatim>\<open>LiquidGlass._advSupported\<close> (\<^verbatim>\<open>undefined\<close> until the first
  construction, here \<open>None\<close>), and how many times the probe has run.
\<close>

record process =
  class_advSupported :: "bool option"
  probes :: nat

definition initial_process :: process where
  "initial_process = \<lparr> class_advSupported = None, probes = 0 \<rparr>"

text \<open>
  The part of the constructor that sets the modelled fields. \<open>env\<close> is what the
  environment would answer to a probe at this moment, \<open>fid\<close> the identifier drawn for
  the instance.
\<close>

definition construct :: "css_supports \<Rightarrow> string \<Rightarrow> process \<Rightarrow> process \<times> element" where
  "construct env fid p =
     (case class_advSupported p of
        None \<Rightarrow>
          (p \<lparr> class_advSupported := Some (supportsAdvancedFilters env), probes := probes p + 1 \<rparr>,
           \<lparr> prev_key = None, prev_blur = None,
             advSupported = supportsAdvancedFilters env, filterId = fid \<rparr>)
      | Some b \<Rightarrow>
          (p, \<lparr> prev_key = None, prev_blur = None, advSupported = b, filterId = fid \<rparr>))"

fun construct_all :: "(css_supports \<times> string) list \<Rightarrow> process \<Rightarrow> process \<times> element list" where
  "construct_all [] p = (p, [])"
| "construct_all ((env, fid) # cs) p =
     (let (p', el) = construct env fid p;
          (p'', els) = construct_all cs p'
      in (p'', el # els))"

section \<open>Example inputs\<close>

definition fresh_element :: element where
  "fresh_element =
     \<lparr> prev_key = None, prev_blur = None, advSupported = True, filterId = ''lg-k3x9'' \<rparr>"

definition box_200x100 :: "(string \<rightharpoonup> string) \<Rightarrow> dom" where
  "box_200x100 attrs =
     \<lparr> bounding_width = Fin 200, bounding_height = Fin 100, attributes = attrs \<rparr>"

text \<open>A box three tenths of a pixel wide: not zero, but it rounds to zero.\<close>

definition sliver_box :: dom where
  "sliver_box =
     \<lparr> bounding_width = Fin (3 / 10), bounding_height = Fin 100, attributes = Map.empty \<rparr>"

definition blur_3 :: "string \<rightharpoonup> string" where
  "blur_3 = [''blur'' \<mapsto> ''3'']"


definition flat :: "string \<rightharpoonup> string" where
  "flat = [''strength'' \<mapsto> ''0'']"


text \<open>The default 200 x 100 instance after its first update cycle.\<close>

definition after_first_cycle :: element where
  "after_first_cycle =
     fresh_element
       \<lparr> prev_key := Some (cacheKey (resolveParameters (box_200x100 Map.empty))),
         prev_blur := Some (Fin 2) \<rparr>"

section \<open>Evaluation lemmas\<close>

lemma floor_rat_numeral [simp]:
  "\<lfloor>(numeral a / numeral b :: rat)\<rfloor> = numeral a div numeral b"
  using floor_divide_of_int_eq [of "numeral a" "numeral b", where ?'a = rat] by simp

lemma ceiling_rat_numeral [simp]:
  "\<lceil>(numeral a / numeral b :: rat)\<rceil> = - (- numeral a div numeral b)"
  using ceiling_divide_eq_div [of "numeral a" "numeral b", where ?'a = rat] by simp

lemma digit_char_eval:
  "digit_char 0 = CHR ''0''" "digit_char 1 = CHR ''1''" "digit_char 2 = CHR ''2''"
  "digit_char 3 = CHR ''3''" "digit_char 4 = CHR ''4''" "digit_char 5 = CHR ''5''"
  "digit_char 6 = CHR ''6''" "digit_char 7 = CHR ''7''" "digit_char 8 = CHR ''8''"
  "digit_char 9 = CHR ''9''"
  by (simp_all add: digit_char_def char_of_def bit_0)

lemma decimal_places_integer: "decimal_places (nat 1) 1 0 = 0"
  by (simp add: One_nat_def del: One_nat_def [symmetric])

lemma toString_2: "toString (Fin 2) = ''2''"
  by (simp add: toString_def decimal_of_def decimal_places_integer digits_of_nat.simps [of 2]
      digit_char_eval strip_zeros_def number_format_def)

lemma toString_3: "toString (Fin 3) = ''3''"
  by (simp add: toString_def decimal_of_def decimal_places_integer digits_of_nat.simps [of 3]
      digit_char_eval strip_zeros_def number_format_def)


lemma parseFloat_0: "parseFloat ''0'' = Fin 0"
  by (simp add: parseFloat_def is_white_space_def unsigned_decimal_def is_digit_def
      nat_of_digits_def digit_val_def exponent_part_def)

lemma parseFloat_3: "parseFloat ''3'' = Fin 3"
  by (simp add: parseFloat_def is_white_space_def unsigned_decimal_def is_digit_def
      nat_of_digits_def digit_val_def exponent_part_def)

lemma resolve_defaults:
  "resolveParameters (box_200x100 Map.empty) =
     \<lparr> param_height = Fin 100, param_width = Fin 200, param_radius = Fin 16,
       param_depth = Fin 10, param_strength = Fin 100, param_chromaticAberration = Fin 0,
       param_blur = Fin 2 \<rparr>"
  by (simp add: resolveParameters_def box_200x100_def getNumberAttribute_def)

lemma resolve_blur_3:
  "resolveParameters (box_200x100 blur_3) =
     \<lparr> param_height = Fin 100, param_width = Fin 200, param_radius = Fin 16,
       param_depth = Fin 10, param_strength = Fin 100, param_chromaticAberration = Fin 0,
       param_blur = Fin 3 \<rparr>"
  by (simp add: resolveParameters_def box_200x100_def getNumberAttribute_def blur_3_def
      parseFloat_3)

lemma resolve_flat:
  "resolveParameters (box_200x100 flat) =
     \<lparr> param_height = Fin 100, param_width = Fin 200, param_radius = Fin 16,
       param_depth = Fin 10, param_strength = Fin 0, param_chromaticAberration = Fin 0,
       param_blur = Fin 2 \<rparr>"
  by (simp add: resolveParameters_def box_200x100_def getNumberAttribute_def flat_def
      parseFloat_0)

lemma box_200x100_live:
  "\<not> js_not (bounding_width (box_200x100 a))" "\<not> js_not (bounding_height (box_200x100 a))"
  by (simp_all add: box_200x100_def js_not_def)

lemma box_200x100_attributes: "attributes (box_200x100 a) = a"
  by (simp add: box_200x100_def)

lemma not_interactive: "\<not> isInteractive Map.empty" "\<not> isInteractive blur_3"
  by (simp_all add: isInteractive_def hasAttribute_def blur_3_def)

section \<open>Digits\<close>

lemma is_digit_digit_char: "d < 10 \<Longrightarrow> is_digit (digit_char d)"
  by (simp add: is_digit_def digit_char_def)

lemma digit_val_digit_char: "d < 10 \<Longrightarrow> digit_val (digit_char d) = d"
  by (simp add: digit_val_def digit_char_def)

lemma nat_of_digits_Nil: "nat_of_digits [] = 0"
  by (simp add: nat_of_digits_def)

lemma nat_of_digits_snoc: "nat_of_digits (xs @ [c]) = 10 * nat_of_digits xs + digit_val c"
  by (simp add: nat_of_digits_def)

lemma nat_of_digits_append:
  "nat_of_digits (xs @ ys) = nat_of_digits xs * 10 ^ length ys + nat_of_digits ys"
proof (induction ys rule: rev_induct)
  case Nil
  show ?case by (simp add: nat_of_digits_Nil)
next
  case (snoc y ys)
  have "nat_of_digits (xs @ ys @ [y]) = 10 * nat_of_digits (xs @ ys) + digit_val y"
    using nat_of_digits_snoc [of "xs @ ys" y] by simp
  also have "\<dots> = nat_of_digits xs * 10 ^ length (ys @ [y]) + nat_of_digits (ys @ [y])"
    by (simp add: snoc nat_of_digits_snoc algebra_simps)
  finally show ?case .
qed

lemma nat_of_digits_zeros: "nat_of_digits (replicate z (CHR ''0'')) = 0"
  by (induction z) (simp_all add: nat_of_digits_def digit_val_def)

lemma nat_of_digits_leading_zeros:
  "nat_of_digits (replicate z (CHR ''0'') @ ds) = nat_of_digits ds"
  by (simp add: nat_of_digits_append nat_of_digits_zeros)

lemma digits_of_nat_digits: "c \<in> set (digits_of_nat n) \<Longrightarrow> is_digit c"
proof (induction n arbitrary: c rule: digits_of_nat.induct)
  case (1 n)
  show ?case
  proof (cases "n < 10")
    case True
    with "1.prems" show ?thesis
      by (simp add: digits_of_nat.simps [of n] is_digit_digit_char)
  next
    case False
    with "1.prems" "1.IH" show ?thesis
      by (auto simp: digits_of_nat.simps [of n] is_digit_digit_char)
  qed
qed

lemma nat_of_digits_of_nat: "nat_of_digits (digits_of_nat n) = n"
proof (induction n rule: digits_of_nat.induct)
  case (1 n)
  show ?case
  proof (cases "n < 10")
    case True
    then show ?thesis
      using nat_of_digits_snoc [of "[]" "digit_char n"]
      by (simp add: digits_of_nat.simps [of n] nat_of_digits_Nil digit_val_digit_char)
  next
    case False
    then have "nat_of_digits (digits_of_nat n) =
        nat_of_digits (digits_of_nat (n div 10)) * 10 + digit_val (digit_char (n mod 10))"
      by (simp add: digits_of_nat.simps [of n] nat_of_digits_snoc)
    with False "1.IH" show ?thesis
      by (simp add: digit_val_digit_char)
  qed
qed

lemma digits_of_nat_not_Nil: "digits_of_nat n \<noteq> []"
  by (simp add: digits_of_nat.simps [of n])

lemma strip_zeros_decompose:
  "ds = strip_zeros ds @ replicate (length ds - length (strip_zeros ds)) (CHR ''0'')"
proof -
  let ?P = "\<lambda>c. c = CHR ''0''"
  have "rev ds = takeWhile ?P (rev ds) @ dropWhile ?P (rev ds)"
    by simp
  moreover have "takeWhile ?P (rev ds) = replicate (length (takeWhile ?P (rev ds))) (CHR ''0'')"
    by (rule replicate_length_same [symmetric]) (auto dest: set_takeWhileD)
  ultimately have "rev ds = replicate (length (takeWhile ?P (rev ds))) (CHR ''0'') @ dropWhile ?P (rev ds)"
    by simp
  then have "ds = rev (dropWhile ?P (rev ds)) @ replicate (length (takeWhile ?P (rev ds))) (CHR ''0'')"
    by (metis rev_append rev_replicate rev_rev_ident)
  moreover have "length (takeWhile ?P (rev ds)) = length ds - length (strip_zeros ds)"
    using length_append [of "takeWhile ?P (rev ds)" "dropWhile ?P (rev ds)"]
    by (simp add: strip_zeros_def del: length_append)
  ultimately show ?thesis
    by (simp add: strip_zeros_def)
qed

lemma nat_of_digits_strip_zeros:
  "nat_of_digits ds =
   nat_of_digits (strip_zeros ds) * 10 ^ (length ds - length (strip_zeros ds))"
proof -
  have "nat_of_digits ds =
      nat_of_digits (strip_zeros ds @ replicate (length ds - length (strip_zeros ds)) (CHR ''0''))"
    using strip_zeros_decompose [of ds] by simp
  then show ?thesis
    by (simp only: nat_of_digits_append nat_of_digits_zeros) simp
qed

lemma set_strip_zeros: "set (strip_zeros ds) \<subseteq> set ds"
  by (auto simp: strip_zeros_def dest: set_dropWhileD)

lemma length_strip_zeros: "length (strip_zeros ds) \<le> length ds"
  by (simp add: strip_zeros_def length_dropWhile_le [of _ "rev ds", simplified])

lemma strip_zeros_not_Nil: "0 < nat_of_digits ds \<Longrightarrow> strip_zeros ds \<noteq> []"
  using nat_of_digits_strip_zeros [of ds] by (auto simp: nat_of_digits_Nil)

section \<open>Reading what was printed\<close>

lemma not_digit [simp]:
  "\<not> is_digit (CHR ''.'')" "\<not> is_digit (CHR ''e'')" "\<not> is_digit (CHR ''-'')"
  "\<not> is_digit (CHR ''+'')" "\<not> is_digit (CHR ''I'')" "\<not> is_digit (CHR ''N'')"
  by (simp_all add: is_digit_def)

lemma takeWhile_digits: "\<forall>c\<in>set ds. is_digit c \<Longrightarrow> takeWhile is_digit (ds @ rest) = ds @ takeWhile is_digit rest"
  by (simp add: takeWhile_append2)

lemma dropWhile_digits: "\<forall>c\<in>set ds. is_digit c \<Longrightarrow> dropWhile is_digit (ds @ rest) = dropWhile is_digit rest"
  by (simp add: dropWhile_append2)

lemma not_Infinity:
  "ds \<noteq> [] \<Longrightarrow> \<forall>c\<in>set ds. is_digit c \<Longrightarrow> take 8 (ds @ rest) \<noteq> ''Infinity''"
  by (cases ds) (auto simp: take_Cons')

lemma takeWhile_all_digits: "\<forall>c\<in>set d. is_digit c \<Longrightarrow> takeWhile is_digit d = d"
  by (simp add: takeWhile_eq_all_conv)

lemma signed_integer_minus:
  "\<forall>c\<in>set d. is_digit c \<Longrightarrow> signed_integer (CHR ''-'' # d) = - int (nat_of_digits d)"
  by (simp add: signed_integer_def takeWhile_all_digits)

lemma signed_integer_plus:
  "\<forall>c\<in>set d. is_digit c \<Longrightarrow> signed_integer (CHR ''+'' # d) = int (nat_of_digits d)"
  by (simp add: signed_integer_def takeWhile_all_digits)

text \<open>The exponent suffix that \<open>number_format\<close> prints for \<open>e\<close> is read back as \<open>e\<close>.\<close>

lemma exponent_part_printed:
  "exponent_part (''e'' @ (if e < 0 then ''-'' else ''+'') @ digits_of_nat (nat \<bar>e\<bar>)) = e"
  using digits_of_nat_digits [of _ "nat \<bar>e\<bar>"]
  by (auto simp: exponent_part_def signed_integer_minus signed_integer_plus nat_of_digits_of_nat)

lemma unsigned_decimal_integer:
  assumes "ip \<noteq> []" and "\<forall>c\<in>set ip. is_digit c"
    and "case rest of [] \<Rightarrow> True | c # _ \<Rightarrow> \<not> is_digit c \<and> c \<noteq> CHR ''.''"
  shows "unsigned_decimal (ip @ rest) =
         Fin (of_nat (nat_of_digits ip) * 10 powi exponent_part rest)"
proof -
  have t: "takeWhile is_digit (ip @ rest) = ip" and d: "dropWhile is_digit (ip @ rest) = rest"
    using assms(2,3) by (auto simp: takeWhile_digits dropWhile_digits split: list.splits)
  have nd: "(case rest of [] \<Rightarrow> False | c # _ \<Rightarrow> c = CHR ''.'') = False"
    using assms(3) by (auto split: list.splits)
  have inf: "take 8 (ip @ rest) \<noteq> ''Infinity''"
    by (rule not_Infinity [OF assms(1,2)])
  show ?thesis
    unfolding unsigned_decimal_def Let_def t d
    using assms(1) inf by (simp add: nd)
qed

lemma unsigned_decimal_fraction:
  assumes "ip \<noteq> []" and "\<forall>c\<in>set ip. is_digit c" and "\<forall>c\<in>set fp. is_digit c"
    and "case rest of [] \<Rightarrow> True | c # _ \<Rightarrow> \<not> is_digit c"
  shows "unsigned_decimal (ip @ CHR ''.'' # fp @ rest) =
         Fin (of_nat (nat_of_digits (ip @ fp)) * 10 powi (exponent_part rest - int (length fp)))"
proof -
  have t: "takeWhile is_digit (ip @ CHR ''.'' # fp @ rest) = ip"
    and d: "dropWhile is_digit (ip @ CHR ''.'' # fp @ rest) = CHR ''.'' # fp @ rest"
    using assms(2) by (simp_all add: takeWhile_digits dropWhile_digits)
  have t2: "takeWhile is_digit (fp @ rest) = fp" and d2: "dropWhile is_digit (fp @ rest) = rest"
    using assms(3,4) by (auto simp: takeWhile_digits dropWhile_digits split: list.splits)
  have inf: "take 8 (ip @ CHR ''.'' # fp @ rest) \<noteq> ''Infinity''"
    by (rule not_Infinity [OF assms(1,2)])
  show ?thesis
    unfolding unsigned_decimal_def Let_def t d
    using assms(1) inf by (simp add: t2 d2)
qed

lemma exponent_part_Nil: "exponent_part [] = 0"
  by (simp add: exponent_part_def)

lemma is_digit_zero: "is_digit (CHR ''0'')"
  by (simp add: is_digit_def)

lemma unsigned_decimal_number_format:
  assumes ne: "ds \<noteq> []" and dig: "\<forall>c\<in>set ds. is_digit c"
  shows "unsigned_decimal (number_format ds n) =
         Fin (of_nat (nat_of_digits ds) * 10 powi (n - int (length ds)))"
proof -
  let ?k = "int (length ds)"
  let ?e = "''e'' @ (if n - 1 < 0 then ''-'' else ''+'') @ digits_of_nat (nat \<bar>n - 1\<bar>)"
  have e_head: "case ?e of [] \<Rightarrow> True | c # _ \<Rightarrow> \<not> is_digit c \<and> c \<noteq> CHR ''.''"
    by simp
  have e_head': "case ?e of [] \<Rightarrow> True | c # _ \<Rightarrow> \<not> is_digit c"
    by simp
  consider (whole) "?k \<le> n" "n \<le> 21"
    | (point) "\<not> (?k \<le> n \<and> n \<le> 21)" "0 < n" "n \<le> 21"
    | (small) "\<not> (?k \<le> n \<and> n \<le> 21)" "\<not> (0 < n \<and> n \<le> 21)" "- 6 < n" "n \<le> 0"
    | (exp1) "\<not> (?k \<le> n \<and> n \<le> 21)" "\<not> (0 < n \<and> n \<le> 21)" "\<not> (- 6 < n \<and> n \<le> 0)" "?k = 1"
    | (exp2) "\<not> (?k \<le> n \<and> n \<le> 21)" "\<not> (0 < n \<and> n \<le> 21)" "\<not> (- 6 < n \<and> n \<le> 0)" "?k \<noteq> 1"
    by blast
  then show ?thesis
  proof cases
    case whole
    let ?s = "ds @ replicate (nat (n - ?k)) (CHR ''0'')"
    have fmt: "number_format ds n = ?s"
      using whole by (simp add: number_format_def)
    have "unsigned_decimal (?s @ []) = Fin (of_nat (nat_of_digits ?s) * 10 powi exponent_part [])"
      by (rule unsigned_decimal_integer) (use ne dig in \<open>auto simp: is_digit_zero\<close>)
    moreover have "nat_of_digits ?s = nat_of_digits ds * 10 ^ nat (n - ?k)"
      by (simp add: nat_of_digits_append nat_of_digits_zeros)
    moreover have "(10::rat) powi (n - ?k) = 10 ^ nat (n - ?k)"
      using whole by (simp add: power_int_def)
    ultimately show ?thesis
      by (simp add: fmt exponent_part_Nil)
  next
    case point
    let ?ip = "take (nat n) ds" and ?fp = "drop (nat n) ds"
    have fmt: "number_format ds n = ?ip @ CHR ''.'' # ?fp @ []"
      using point by (simp add: number_format_def)
    have "unsigned_decimal (?ip @ CHR ''.'' # ?fp @ []) =
        Fin (of_nat (nat_of_digits (?ip @ ?fp)) * 10 powi (exponent_part [] - int (length ?fp)))"
      by (rule unsigned_decimal_fraction)
        (use ne dig point in \<open>auto dest: in_set_takeD in_set_dropD\<close>)
    moreover have "exponent_part [] - int (length ?fp) = n - ?k"
      using point by (simp add: exponent_part_Nil)
    ultimately show ?thesis
      by (simp only: fmt append_take_drop_id)
  next
    case small
    let ?fp = "replicate (nat (- n)) (CHR ''0'') @ ds"
    have fmt: "number_format ds n = ''0'' @ CHR ''.'' # ?fp @ []"
      using small by (simp add: number_format_def)
    have "unsigned_decimal (''0'' @ CHR ''.'' # ?fp @ []) =
        Fin (of_nat (nat_of_digits (''0'' @ ?fp)) * 10 powi (exponent_part [] - int (length ?fp)))"
      by (rule unsigned_decimal_fraction) (use dig in \<open>auto simp: is_digit_zero\<close>)
    moreover have "nat_of_digits (''0'' @ ?fp) = nat_of_digits ds"
      using nat_of_digits_leading_zeros [of "Suc (nat (- n))" ds] by simp
    moreover have "- int (length ?fp) = n - ?k"
      using small by simp
    ultimately show ?thesis
      by (simp add: fmt exponent_part_Nil del: append_Nil2)
  next
    case exp1
    have fmt: "number_format ds n = ds @ ?e"
      unfolding number_format_def Let_def
      by (subst if_not_P [OF exp1(1)], subst if_not_P [OF exp1(2)],
          subst if_not_P [OF exp1(3)], subst if_P [OF exp1(4)]) (rule refl)
    have "unsigned_decimal (ds @ ?e) = Fin (of_nat (nat_of_digits ds) * 10 powi exponent_part ?e)"
      by (rule unsigned_decimal_integer [OF ne dig e_head])
    then show ?thesis
      using exp1(4) by (simp only: fmt exponent_part_printed)
  next
    case exp2
    let ?ip = "take 1 ds" and ?fp = "drop 1 ds"
    have fmt: "number_format ds n = ?ip @ CHR ''.'' # ?fp @ ?e"
      unfolding number_format_def Let_def
      by (subst if_not_P [OF exp2(1)], subst if_not_P [OF exp2(2)],
          subst if_not_P [OF exp2(3)], subst if_not_P [OF exp2(4)]) simp_all
    have "unsigned_decimal (?ip @ CHR ''.'' # ?fp @ ?e) =
        Fin (of_nat (nat_of_digits (?ip @ ?fp)) * 10 powi (exponent_part ?e - int (length ?fp)))"
      by (rule unsigned_decimal_fraction [OF _ _ _ e_head'])
        (use ne dig in \<open>auto dest: in_set_takeD in_set_dropD\<close>)
    moreover have "n - 1 - int (length ?fp) = n - ?k"
      using ne by (cases ds) simp_all
    ultimately show ?thesis
      by (simp only: fmt exponent_part_printed append_take_drop_id)
  qed
qed

section \<open>Numbers with a finite decimal expansion\<close>

lemma dvd_power_10_bound:
  fixes q :: nat
  shows "q dvd 10 ^ j \<Longrightarrow> q dvd 10 ^ q"
proof (induction q rule: less_induct)
  case (less q)
  show ?case
  proof (cases "q \<le> 1")
    case True
    then have "q = 0 \<or> q = 1"
      by auto
    with less.prems show ?thesis
      by auto
  next
    case False
    define g where "g = gcd q 10"
    have "\<not> coprime q 10"
    proof
      assume "coprime q 10"
      then have "coprime q (10 ^ j)"
        by simp
      then have "is_unit q"
        using dvd_refl less.prems by (rule coprime_common_divisor)
      with False show False
        by simp
    qed
    then have "g \<noteq> 1"
      by (simp add: g_def coprime_iff_gcd_eq_1)
    moreover have "g \<noteq> 0"
      by (simp add: g_def)
    ultimately have g: "1 < g"
      by arith
    have gq: "g dvd q" and g10: "g dvd 10"
      by (simp_all add: g_def)
    define q1 where "q1 = q div g"
    have q: "q = g * q1"
      using gq by (simp add: q1_def)
    have "q1 < q"
      using g False q by (cases "q1 = 0") auto
    moreover have "q1 dvd 10 ^ j"
      using less.prems unfolding q by (rule dvd_mult_right)
    ultimately have "q1 dvd 10 ^ q1"
      by (rule less.IH)
    with g10 have "g * q1 dvd 10 * 10 ^ q1"
      by (rule mult_dvd_mono)
    then have "q dvd 10 ^ Suc q1"
      using q by simp
    moreover have "(10::nat) ^ Suc q1 dvd 10 ^ q"
      using \<open>q1 < q\<close> by (intro le_imp_power_dvd) simp
    ultimately show ?thesis
      by (rule dvd_trans)
  qed
qed

lemma decimal_places_dvd:
  "q dvd 10 ^ (j + f) \<Longrightarrow> q dvd 10 ^ decimal_places f q j"
  by (induction f q j rule: decimal_places.induct) simp_all

lemma finite_expansion_denominator:
  assumes "finite_expansion a" and "quotient_of a = (p, q)"
  shows "q dvd 10 ^ decimal_places (nat q) q 0"
proof -
  have qpos: "0 < q" and cop: "coprime p q" and a: "a = of_int p / of_int q"
    using assms(2) by (auto dest: quotient_of_denom_pos quotient_of_coprime quotient_of_div)
  from assms(1) obtain j :: nat and z :: int where "a * 10 ^ j = of_int z"
    by (auto simp: finite_expansion_def Ints_def)
  then have "(of_int (p * 10 ^ j) :: rat) = of_int (z * q)"
    using qpos by (simp add: a field_simps)
  then have "p * 10 ^ j = z * q"
    by (simp only: of_int_eq_iff)
  then have "q dvd p * 10 ^ j"
    by simp
  then have "q dvd 10 ^ j"
    using cop by (simp add: coprime_commute coprime_dvd_mult_right_iff)
  then have "nat q dvd 10 ^ j"
    using qpos by (simp add: nat_dvd_iff)
  then have "nat q dvd 10 ^ nat q"
    by (rule dvd_power_10_bound)
  then have "int (nat q) dvd int (10 ^ nat q)"
    by (simp only: int_dvd_int_iff)
  then have "q dvd 10 ^ (0 + nat q)"
    using qpos by simp
  then show ?thesis
    by (rule decimal_places_dvd)
qed

lemma decimal_of_value:
  assumes pos: "0 < a" and fin: "finite_expansion a"
  shows "fst (decimal_of a) \<noteq> []
       \<and> (\<forall>c\<in>set (fst (decimal_of a)). is_digit c)
       \<and> of_nat (nat_of_digits (fst (decimal_of a)))
            * 10 powi (snd (decimal_of a) - int (length (fst (decimal_of a)))) = a"
proof -
  obtain p q where pq: "quotient_of a = (p, q)"
    by (cases "quotient_of a")
  define j where "j = decimal_places (nat q) q 0"
  define s where "s = (p * 10 ^ j) div q"
  define ds0 where "ds0 = digits_of_nat (nat s)"
  have dec: "decimal_of a = (strip_zeros ds0, int (length ds0) - int j)"
    by (simp add: decimal_of_def pq j_def s_def ds0_def Let_def)
  have qpos: "0 < q" and a: "a = of_int p / of_int q"
    using pq by (auto dest: quotient_of_denom_pos quotient_of_div)
  have "q dvd 10 ^ j"
    unfolding j_def using fin pq by (rule finite_expansion_denominator)
  then have "q dvd p * 10 ^ j"
    by simp
  then have "s * q = p * 10 ^ j"
    by (simp add: s_def)
  then have "(of_int s :: rat) * of_int q = of_int p * 10 ^ j"
    by (metis of_int_mult of_int_numeral of_int_power)
  then have s: "(of_int s :: rat) = a * 10 ^ j"
    using qpos by (simp add: a field_simps)
  then have "(0::rat) < of_int s"
    using pos by simp
  then have spos: "0 < s"
    by simp
  have val0: "nat_of_digits ds0 = nat s"
    by (simp add: ds0_def nat_of_digits_of_nat)
  then have ne: "strip_zeros ds0 \<noteq> []"
    using spos by (intro strip_zeros_not_Nil) simp
  have dig: "\<forall>c\<in>set (strip_zeros ds0). is_digit c"
    using set_strip_zeros [of ds0] by (auto simp: ds0_def dest: digits_of_nat_digits)
  let ?z = "length ds0 - length (strip_zeros ds0)"
  have z: "int (length ds0) - int j - int (length (strip_zeros ds0)) = int ?z - int j"
    using length_strip_zeros [of ds0] by simp
  have "rat_of_nat (nat_of_digits (strip_zeros ds0)) * 10 powi (int ?z - int j)
      = rat_of_nat (nat_of_digits (strip_zeros ds0)) * 10 ^ ?z / 10 ^ j"
    by (simp add: power_int_diff)
  also have "\<dots> = rat_of_nat (nat_of_digits ds0) / 10 ^ j"
    by (subst nat_of_digits_strip_zeros [of ds0]) simp
  also have "\<dots> = of_int s / 10 ^ j"
    using spos by (simp add: val0)
  also have "\<dots> = a"
    by (simp add: s)
  finally show ?thesis
    using ne dig by (simp add: dec z)
qed

lemma number_format_head:
  "ds \<noteq> [] \<Longrightarrow> \<forall>c\<in>set ds. is_digit c \<Longrightarrow>
   \<exists>c rest. number_format ds n = c # rest \<and> is_digit c"
  by (cases ds) (auto simp: number_format_def Let_def is_digit_zero take_Cons')

lemma parseFloat_digit_head:
  "is_digit c \<Longrightarrow> parseFloat (c # rest) = unsigned_decimal (c # rest)"
  by (auto simp: parseFloat_def is_white_space_def is_digit_def)

lemma parseFloat_minus:
  "is_digit c \<Longrightarrow> parseFloat (CHR ''-'' # c # rest) = js_neg (unsigned_decimal (c # rest))"
  by (auto simp: parseFloat_def is_white_space_def)

text \<open>Printing and reading back gives the number again.\<close>

lemma parseFloat_toString:
  assumes "printable x"
  shows "parseFloat (toString x) = x"
proof (cases x)
  case NaN
  then show ?thesis
    by (simp add: toString_def parseFloat_def is_white_space_def unsigned_decimal_def)
next
  case PosInfinity
  then show ?thesis
    by (simp add: toString_def parseFloat_def is_white_space_def unsigned_decimal_def)
next
  case NegInfinity
  then show ?thesis
    by (simp add: toString_def parseFloat_def is_white_space_def unsigned_decimal_def)
next
  case (Fin a)
  show ?thesis
  proof (cases "a = 0")
    case True
    have "unsigned_decimal (''0'' @ []) = Fin (of_nat (nat_of_digits ''0'') * 10 powi exponent_part [])"
      by (rule unsigned_decimal_integer) (simp_all add: is_digit_zero)
    then show ?thesis
      using True Fin
      by (simp add: toString_def parseFloat_digit_head is_digit_zero nat_of_digits_def
          digit_val_def)
  next
    case False
    then have pos: "0 < \<bar>a\<bar>"
      by simp
    have fin: "finite_expansion \<bar>a\<bar>"
      using assms Fin by (auto simp: printable_def finite_expansion_def abs_if)
    obtain ds n where dn: "decimal_of \<bar>a\<bar> = (ds, n)"
      by (cases "decimal_of \<bar>a\<bar>")
    have ne: "ds \<noteq> []" and dig: "\<forall>c\<in>set ds. is_digit c"
      and val: "of_nat (nat_of_digits ds) * 10 powi (n - int (length ds)) = \<bar>a\<bar>"
      using decimal_of_value [OF pos fin] by (simp_all add: dn)
    obtain c rest where fmt: "number_format ds n = c # rest" and c: "is_digit c"
      using number_format_head [OF ne dig] by blast
    have u: "unsigned_decimal (c # rest) = Fin \<bar>a\<bar>"
      using unsigned_decimal_number_format [OF ne dig, of n] by (simp add: fmt val)
    have ts: "toString (Fin a) = (if a < 0 then ''-'' else '''') @ c # rest"
      unfolding toString_def jsnum.case dn using \<open>a \<noteq> 0\<close> by (simp add: fmt)
    show ?thesis
    proof (cases "a < 0")
      case True
      then show ?thesis
        unfolding Fin by (simp add: ts parseFloat_minus [OF c] u)
    next
      case False
      then show ?thesis
        unfolding Fin by (simp add: ts parseFloat_digit_head [OF c] u)
    qed
  qed
qed

lemma toString_injective:
  "printable x \<Longrightarrow> printable y \<Longrightarrow> toString x = toString y \<Longrightarrow> x = y"
  by (metis parseFloat_toString)

section \<open>The cache key\<close>

lemma finite_expansion_of_int: "finite_expansion (of_int z)"
  unfolding finite_expansion_def by (rule exI [of _ 0]) simp

lemma finite_expansion_minus: "finite_expansion a \<Longrightarrow> finite_expansion (- a)"
  by (auto simp: finite_expansion_def)

lemma finite_expansion_scaled: "finite_expansion (of_nat m * 10 powi e)"
proof (cases "0 \<le> e")
  case True
  then have "rat_of_nat m * 10 powi e = of_int (int m * 10 ^ nat e)"
    by (simp add: power_int_def)
  then show ?thesis
    by (simp only: finite_expansion_of_int)
next
  case False
  then have "(10::rat) powi e * 10 ^ nat (- e) = 1"
    by (simp add: power_int_def power_mult_distrib [symmetric])
  then have "rat_of_nat m * 10 powi e * 10 ^ nat (- e) = of_nat m"
    by (simp add: mult.assoc)
  then have "rat_of_nat m * 10 powi e * 10 ^ nat (- e) \<in> \<int>"
    by (simp only: Ints_of_nat)
  then show ?thesis
    unfolding finite_expansion_def by (rule exI)
qed

lemma printable_special: "printable NaN" "printable PosInfinity" "printable NegInfinity"
  by (simp_all add: printable_def)

lemma printable_js_neg: "printable x \<Longrightarrow> printable (js_neg x)"
  by (cases x) (simp_all add: printable_def finite_expansion_minus)

lemma printable_unsigned_decimal: "printable (unsigned_decimal s)"
  by (simp add: unsigned_decimal_def Let_def printable_def finite_expansion_scaled)

lemma printable_parseFloat: "printable (parseFloat v)"
  by (simp add: parseFloat_def printable_js_neg printable_unsigned_decimal printable_special
      split: list.split)

lemma printable_Math_round: "printable (Math_round x)"
  by (cases x) (simp_all add: printable_def finite_expansion_of_int)

lemma printable_getNumberAttribute:
  "printable dflt \<Longrightarrow> printable (getNumberAttribute attrs name dflt)"
  by (simp add: getNumberAttribute_def printable_parseFloat split: option.split)

lemma printable_numeral: "printable (Fin (numeral k))" "printable (Fin 0)"
  using finite_expansion_of_int [of "numeral k"] finite_expansion_of_int [of 0]
  by (simp_all add: printable_def)

lemma printable_parameters:
  "printable (param_width (resolveParameters d))"
  "printable (param_height (resolveParameters d))"
  "printable (param_depth (resolveParameters d))"
  "printable (param_strength (resolveParameters d))"
  "printable (param_chromaticAberration (resolveParameters d))"
  by (simp_all add: resolveParameters_def printable_Math_round printable_getNumberAttribute
      printable_numeral)

text \<open>No printed Number contains one of the two separators of the key.\<close>

lemma is_digit_not_separator: "is_digit c \<Longrightarrow> c \<noteq> CHR ''x'' \<and> c \<noteq> CHR '':''"
  by (auto simp: is_digit_def)

lemma digits_no_separator:
  "\<forall>c\<in>set ds. is_digit c \<Longrightarrow> CHR ''x'' \<notin> set ds \<and> CHR '':'' \<notin> set ds"
  by (auto dest: is_digit_not_separator)

lemma number_format_no_separator:
  assumes "\<forall>c\<in>set ds. is_digit c"
  shows "CHR ''x'' \<notin> set (number_format ds n) \<and> CHR '':'' \<notin> set (number_format ds n)"
proof -
  have ds: "CHR ''x'' \<notin> set ds" "CHR '':'' \<notin> set ds"
    using digits_no_separator [OF assms] by simp_all
  have part: "CHR ''x'' \<notin> set (take m ds)" "CHR '':'' \<notin> set (take m ds)"
    "CHR ''x'' \<notin> set (drop m ds)" "CHR '':'' \<notin> set (drop m ds)" for m
    using ds by (auto dest: in_set_takeD in_set_dropD)
  have ex: "CHR ''x'' \<notin> set (digits_of_nat m)" "CHR '':'' \<notin> set (digits_of_nat m)" for m
    using digits_no_separator [of "digits_of_nat m"] digits_of_nat_digits [of _ m] by blast+
  show ?thesis
    unfolding number_format_def Let_def by (simp add: ds part ex)
qed

lemma decimal_of_digits: "\<forall>c\<in>set (fst (decimal_of a)). is_digit c"
  using set_strip_zeros
  by (auto simp: decimal_of_def Let_def split: prod.split dest!: digits_of_nat_digits subsetD)

lemma toString_no_separator:
  "CHR ''x'' \<notin> set (toString x) \<and> CHR '':'' \<notin> set (toString x)"
proof (cases x)
  case (Fin a)
  obtain ds n where dn: "decimal_of \<bar>a\<bar> = (ds, n)"
    by (cases "decimal_of \<bar>a\<bar>")
  have "\<forall>c\<in>set ds. is_digit c"
    using decimal_of_digits [of "\<bar>a\<bar>"] by (simp add: dn)
  then show ?thesis
    using number_format_no_separator [of ds n]
    unfolding Fin toString_def jsnum.case dn by simp
qed (simp_all add: toString_def)

lemma split_at_separator:
  assumes "c \<notin> set a" and "c \<notin> set a'" and "a @ c # r = a' @ c # r'"
  shows "a = a' \<and> r = r'"
proof -
  have t: "c \<notin> set xs \<Longrightarrow> takeWhile (\<lambda>x. x \<noteq> c) (xs @ c # ys) = xs" for xs ys
    by (induction xs) auto
  have "takeWhile (\<lambda>x. x \<noteq> c) (a @ c # r) = takeWhile (\<lambda>x. x \<noteq> c) (a' @ c # r')"
    by (simp only: assms(3))
  then have "a = a'"
    by (simp only: t [OF assms(1)] t [OF assms(2)])
  then show ?thesis
    using assms(3) by simp
qed

lemma cacheKey_components:
  assumes "cacheKey p = cacheKey p'"
  shows "toString (param_width p) = toString (param_width p')
       \<and> toString (param_height p) = toString (param_height p')
       \<and> toString (param_depth p) = toString (param_depth p')
       \<and> toString (param_strength p) = toString (param_strength p')
       \<and> toString (param_chromaticAberration p) = toString (param_chromaticAberration p')"
proof -
  note sep = toString_no_separator
  let ?r3 = "\<lambda>p. toString (param_strength p) @ CHR '':'' # toString (param_chromaticAberration p)"
  let ?r2 = "\<lambda>p. toString (param_depth p) @ CHR '':'' # ?r3 p"
  let ?r1 = "\<lambda>p. toString (param_height p) @ CHR '':'' # ?r2 p"
  have "toString (param_width p) @ CHR ''x'' # ?r1 p = toString (param_width p') @ CHR ''x'' # ?r1 p'"
    using assms by (simp add: cacheKey_def)
  then have w: "toString (param_width p) = toString (param_width p')" and r1: "?r1 p = ?r1 p'"
    using split_at_separator [of "CHR ''x''" "toString (param_width p)" "toString (param_width p')"]
      sep by blast+
  from r1 have h: "toString (param_height p) = toString (param_height p')" and r2: "?r2 p = ?r2 p'"
    using split_at_separator [of "CHR '':''" "toString (param_height p)" "toString (param_height p')"]
      sep by blast+
  from r2 have d: "toString (param_depth p) = toString (param_depth p')" and r3: "?r3 p = ?r3 p'"
    using split_at_separator [of "CHR '':''" "toString (param_depth p)" "toString (param_depth p')"]
      sep by blast+
  from r3 have s: "toString (param_strength p) = toString (param_strength p')"
    and c: "toString (param_chromaticAberration p) = toString (param_chromaticAberration p')"
    using split_at_separator [of "CHR '':''" "toString (param_strength p)" "toString (param_strength p')"]
      sep by blast+
  from w h d s c show ?thesis
    by simp
qed

lemma cacheKey_resolved_injective:
  assumes "cacheKey (resolveParameters d1) = cacheKey (resolveParameters d2)"
  shows "param_width (resolveParameters d1) = param_width (resolveParameters d2)
     \<and> param_height (resolveParameters d1) = param_height (resolveParameters d2)
     \<and> param_depth (resolveParameters d1) = param_depth (resolveParameters d2)
     \<and> param_strength (resolveParameters d1) = param_strength (resolveParameters d2)
     \<and> param_chromaticAberration (resolveParameters d1) =
         param_chromaticAberration (resolveParameters d2)"
  using cacheKey_components [OF assms] printable_parameters [of d1] printable_parameters [of d2]
  by (blast intro: toString_injective)

text \<open>
  C2. Two update cycles have the same cache key exactly when they agree on all five
  of width, height, depth, strength and chromatic aberration: cycles that differ in
  one of them (or more) have different keys, and cycles that agree on them have the
  same key.
\<close>

theorem cache_key_injective:
  "cacheKey (resolveParameters d1) = cacheKey (resolveParameters d2) \<longleftrightarrow>
     param_width (resolveParameters d1) = param_width (resolveParameters d2)
     \<and> param_height (resolveParameters d1) = param_height (resolveParameters d2)
     \<and> param_depth (resolveParameters d1) = param_depth (resolveParameters d2)
     \<and> param_strength (resolveParameters d1) = param_strength (resolveParameters d2)
     \<and> param_chromaticAberration (resolveParameters d1) =
         param_chromaticAberration (resolveParameters d2)"
  using cacheKey_resolved_injective [of d1 d2] by (auto simp: cacheKey_def)

section \<open>Printing, on examples\<close>

lemma digit_char_one: "digit_char (Suc 0) = CHR ''1''"
  using digit_char_eval(2) by simp

lemma digits_of_nat_small: "n < 10 \<Longrightarrow> digits_of_nat n = [digit_char n]"
  by (simp add: digits_of_nat.simps [of n])

lemma digits_of_nat_large:
  "10 \<le> n \<Longrightarrow> digits_of_nat n = digits_of_nat (n div 10) @ [digit_char (n mod 10)]"
  by (simp add: digits_of_nat.simps [of n])

lemma replicate_numeral_eval: "replicate (numeral k) x = x # replicate (pred_numeral k) x"
  by (simp add: numeral_eq_Suc)

lemma decimal_places_step:
  "0 < f \<Longrightarrow>
   decimal_places f q j = (if q dvd 10 ^ j then j else decimal_places (f - 1) q (Suc j))"
  by (cases f) simp_all

lemma quotient_of_fraction:
  "quotient_of (numeral a / numeral b) = Rat.normalize (numeral a, numeral b)"
  using quotient_of_Fract [of "numeral a" "numeral b"]
  by (simp add: Fract_of_int_quotient)

lemma quotient_of_unit_fraction:
  "quotient_of (1 / numeral b) = Rat.normalize (1, numeral b)"
  using quotient_of_Fract [of 1 "numeral b"]
  by (simp add: Fract_of_int_quotient)

lemmas toString_eval = toString_def decimal_of_def decimal_places_integer digits_of_nat_small
  digits_of_nat_large digit_char_eval digit_char_one strip_zeros_def number_format_def
  replicate_numeral_eval quotient_of_fraction quotient_of_unit_fraction Rat.normalize_def
  decimal_places_step Let_def

lemma toString_integers:
  "toString (Fin 0) = ''0''" "toString (Fin 10) = ''10''" "toString (Fin 100) = ''100''"
  "toString (Fin 200) = ''200''" "toString (Fin (- 16)) = ''-16''"
  by (simp_all add: toString_eval)

lemma toString_fractions:
  "toString (Fin (3 / 2)) = ''1.5''" "toString (Fin (- 3 / 2)) = ''-1.5''"
  "toString (Fin (1 / 1000000)) = ''0.000001''"
  by (simp_all add: toString_eval)

lemma toString_exponents:
  "toString (Fin (1 / 10000000)) = ''1e-7''"
  "toString (Fin 123000000000000000000) = ''123000000000000000000''"
  "toString (Fin 1230000000000000000000) = ''1.23e+21''"
  by (simp_all add: toString_eval)

lemma default_cacheKey:
  "cacheKey (resolveParameters (box_200x100 Map.empty)) = ''200x100:10:100:0''"
  by (simp add: resolve_defaults cacheKey_def toString_integers)

section \<open>Skipping and regenerating\<close>

lemma writes_to_append: "writes_to n (xs @ ys) = writes_to n xs @ writes_to n ys"
  by (induction n xs rule: writes_to.induct) auto

lemma assembled_filters_append:
  "assembled_filters (xs @ ys) = assembled_filters xs @ assembled_filters ys"
  by (induction xs rule: assembled_filters.induct) auto

lemma round_positive_not_falsy: "js_gt (Math_round x) (Fin 0) \<Longrightarrow> \<not> js_not x"
  by (cases x) (auto simp: js_not_def)

lemma updateFilter_cases:
  "updateFilter force d el =
     (if js_not (bounding_width d) \<or> js_not (bounding_height d) then (el, [])
      else if \<not> force \<and> prev_key el = Some (cacheKey (resolveParameters d))
      then (el, snd (updateFilter force d el))
      else (el \<lparr> prev_key := Some (cacheKey (resolveParameters d)),
                 prev_blur := Some (param_blur (resolveParameters d)) \<rparr>,
            snd (updateFilter force d el)))"
  by (simp add: updateFilter_def Let_def)

lemma filter_writes_of_cycle:
  "writes_to ''--lg-filter'' (snd (updateFilter force d el)) =
     (if js_not (bounding_width d) \<or> js_not (bounding_height d)
         \<or> (\<not> force \<and> prev_key el = Some (cacheKey (resolveParameters d)))
      then [] else [published_filter el (resolveParameters d)])"
  by (auto simp: updateFilter_def Let_def writes_to_append published_filter_def)

lemma assembled_filters_of_cycle:
  "assembled_filters (snd (updateFilter force d el)) =
     (if js_not (bounding_width d) \<or> js_not (bounding_height d)
         \<or> (\<not> force \<and> prev_key el = Some (cacheKey (resolveParameters d)))
         \<or> \<not> (advSupported el
                \<and> (js_gt (param_strength (resolveParameters d)) (Fin 0)
                     \<or> js_gt (param_chromaticAberration (resolveParameters d)) (Fin 0)))
      then []
      else [getDisplacementFilter (filterId el)
              (param_height (resolveParameters d)) (param_width (resolveParameters d))
              (param_radius (resolveParameters d)) (param_depth (resolveParameters d))
              (param_strength (resolveParameters d))
              (param_chromaticAberration (resolveParameters d))])"
  by (auto simp: updateFilter_def Let_def assembled_filters_append)

lemma prev_key_after_cycle:
  "\<not> js_not (bounding_width d) \<Longrightarrow> \<not> js_not (bounding_height d) \<Longrightarrow>
   prev_key (fst (updateFilter force d el)) = Some (cacheKey (resolveParameters d))"
  by (auto simp: updateFilter_def Let_def)

lemma published_filter_after_cycle:
  "published_filter (fst (updateFilter force d el)) p = published_filter el p"
  by (subst updateFilter_cases) (simp add: published_filter_def)

text \<open>
  C1. In a cycle whose rounded dimensions are positive, the filter reference is
  regenerated exactly when the refresh is forced or the cache key of the cycle's
  parameters differs from the stored one. Regenerated means: the cycle publishes, as
  its one write to \<^verbatim>\<open>--lg-filter\<close>, the reference for its own parameters, and where the
  instance supports filters and the strength or the chromatic aberration is positive
  that reference is the displacement filter newly built from those parameters (it is
  \<^verbatim>\<open>none\<close> otherwise); a cycle that does not regenerate builds no filter and writes no
  reference. Whatever the cycle did, it leaves its key stored, so that a second call
  on the same inputs without force skips, and a forced one regenerates although the
  key is unchanged.
\<close>

theorem regeneration_iff_forced_or_key_changed:
  assumes "js_gt (Math_round (bounding_width d)) (Fin 0)"
    and "js_gt (Math_round (bounding_height d)) (Fin 0)"
  shows "writes_to ''--lg-filter'' (snd (updateFilter force d el)) =
           (if force \<or> prev_key el \<noteq> Some (cacheKey (resolveParameters d))
            then [published_filter el (resolveParameters d)] else [])
       \<and> assembled_filters (snd (updateFilter force d el)) =
           (if (force \<or> prev_key el \<noteq> Some (cacheKey (resolveParameters d)))
               \<and> advSupported el
               \<and> (js_gt (param_strength (resolveParameters d)) (Fin 0)
                    \<or> js_gt (param_chromaticAberration (resolveParameters d)) (Fin 0))
            then [getDisplacementFilter (filterId el)
                    (param_height (resolveParameters d)) (param_width (resolveParameters d))
                    (param_radius (resolveParameters d)) (param_depth (resolveParameters d))
                    (param_strength (resolveParameters d))
                    (param_chromaticAberration (resolveParameters d))]
            else [])
       \<and> prev_key (fst (updateFilter force d el)) = Some (cacheKey (resolveParameters d))
       \<and> writes_to ''--lg-filter''
            (snd (updateFilter False d (fst (updateFilter force d el)))) = []
       \<and> assembled_filters
            (snd (updateFilter False d (fst (updateFilter force d el)))) = []
       \<and> writes_to ''--lg-filter''
            (snd (updateFilter True d (fst (updateFilter force d el)))) =
           [published_filter el (resolveParameters d)]"
proof -
  have w: "\<not> js_not (bounding_width d)" and h: "\<not> js_not (bounding_height d)"
    using assms by (auto dest: round_positive_not_falsy)
  have key: "prev_key (fst (updateFilter force d el)) = Some (cacheKey (resolveParameters d))"
    by (rule prev_key_after_cycle [OF w h])
  have first: "writes_to ''--lg-filter'' (snd (updateFilter force d el)) =
      (if force \<or> prev_key el \<noteq> Some (cacheKey (resolveParameters d))
       then [published_filter el (resolveParameters d)] else [])"
    using w h by (simp add: filter_writes_of_cycle)
  have built: "assembled_filters (snd (updateFilter force d el)) =
      (if (force \<or> prev_key el \<noteq> Some (cacheKey (resolveParameters d)))
          \<and> advSupported el
          \<and> (js_gt (param_strength (resolveParameters d)) (Fin 0)
               \<or> js_gt (param_chromaticAberration (resolveParameters d)) (Fin 0))
       then [getDisplacementFilter (filterId el)
               (param_height (resolveParameters d)) (param_width (resolveParameters d))
               (param_radius (resolveParameters d)) (param_depth (resolveParameters d))
               (param_strength (resolveParameters d))
               (param_chromaticAberration (resolveParameters d))]
       else [])"
    using w h by (simp add: assembled_filters_of_cycle)
  have again: "writes_to ''--lg-filter''
      (snd (updateFilter False d (fst (updateFilter force d el)))) = []"
    "assembled_filters (snd (updateFilter False d (fst (updateFilter force d el)))) = []"
    using key by (simp_all add: filter_writes_of_cycle assembled_filters_of_cycle)
  have forced: "writes_to ''--lg-filter''
      (snd (updateFilter True d (fst (updateFilter force d el)))) =
      [published_filter el (resolveParameters d)]"
    using w h by (simp add: filter_writes_of_cycle published_filter_after_cycle)
  from first built key again forced show ?thesis
    by (intro conjI)
qed

theorem regeneration_iff_forced_or_key_changed_witness:
  "writes_to ''--lg-filter'' (snd (updateFilter False (box_200x100 Map.empty) fresh_element)) =
     [CssUrl (getDisplacementFilter ''lg-k3x9'' (Fin 100) (Fin 200) (Fin 16) (Fin 10)
                (Fin 100) (Fin 0))]
   \<and> assembled_filters (snd (updateFilter False (box_200x100 Map.empty) fresh_element)) =
       [getDisplacementFilter ''lg-k3x9'' (Fin 100) (Fin 200) (Fin 16) (Fin 10)
          (Fin 100) (Fin 0)]
   \<and> writes_to ''--lg-filter''
        (snd (updateFilter False (box_200x100 Map.empty)
               (fst (updateFilter False (box_200x100 Map.empty) fresh_element)))) = []
   \<and> writes_to ''--lg-filter''
        (snd (updateFilter True (box_200x100 Map.empty)
               (fst (updateFilter False (box_200x100 Map.empty) fresh_element)))) =
       [CssUrl (getDisplacementFilter ''lg-k3x9'' (Fin 100) (Fin 200) (Fin 16) (Fin 10)
                  (Fin 100) (Fin 0))]"
proof -
  have w: "js_gt (Math_round (bounding_width (box_200x100 Map.empty))) (Fin 0)"
    and h: "js_gt (Math_round (bounding_height (box_200x100 Map.empty))) (Fin 0)"
    by (simp_all add: box_200x100_def)
  have p: "published_filter fresh_element (resolveParameters (box_200x100 Map.empty)) =
      CssUrl (getDisplacementFilter ''lg-k3x9'' (Fin 100) (Fin 200) (Fin 16) (Fin 10)
                (Fin 100) (Fin 0))"
    by (simp add: published_filter_def resolve_defaults fresh_element_def)
  have k: "prev_key fresh_element = None" "advSupported fresh_element"
    "filterId fresh_element = ''lg-k3x9''"
    by (simp_all add: fresh_element_def)
  show ?thesis
    using regeneration_iff_forced_or_key_changed [OF w h, of False fresh_element]
    by (simp add: p [unfolded resolve_defaults] k resolve_defaults)
qed

section \<open>Degenerate geometry\<close>

text \<open>
  C5, as the specification states it, fails: a measured width of 0.3 rounds to zero,
  yet the cycle is not aborted. It publishes the blur and a filter reference and
  stores a cache key.
\<close>

theorem sliver_box_is_not_aborted:
  "Math_round (bounding_width sliver_box) = Fin 0
   \<and> writes_to ''--lg-blur'' (snd (updateFilter False sliver_box fresh_element)) \<noteq> []
   \<and> writes_to ''--lg-filter'' (snd (updateFilter False sliver_box fresh_element)) \<noteq> []
   \<and> prev_key (fst (updateFilter False sliver_box fresh_element)) \<noteq> prev_key fresh_element"
  by (simp add: sliver_box_def fresh_element_def updateFilter_def js_not_def Let_def
      blur_changed_def resolveParameters_def getNumberAttribute_def isInteractive_def
      hasAttribute_def)

text \<open>
  C5, amended. The guard tests the measured dimensions, before they are rounded: when
  either is zero the cycle aborts, with no call on the style channel and no change of
  the instance.
\<close>

theorem abort_on_zero_dimension:
  "bounding_width d = Fin 0 \<or> bounding_height d = Fin 0 \<Longrightarrow>
   updateFilter force d el = (el, [])"
  by (auto simp: updateFilter_def js_not_def)

theorem abort_on_zero_dimension_witness:
  "updateFilter True
     \<lparr> bounding_width = Fin 0, bounding_height = Fin 100, attributes = Map.empty \<rparr>
     fresh_element = (fresh_element, [])"
  using abort_on_zero_dimension
    [of "\<lparr> bounding_width = Fin 0, bounding_height = Fin 100, attributes = Map.empty \<rparr>"
        True fresh_element]
  by simp

section \<open>Parameter resolution\<close>




section \<open>The gradients of the displacement map\<close>

text \<open>
  C3, as the specification states it, fails: the insets are computed from the corner
  radius, not from the depth. For depth 10, width 200 and height 100 the specification
  gives 2 and 1 percent; the map has 3 and 2 percent.
\<close>

theorem insets_follow_radius_not_depth:
  "map (\<lambda>g. (grad_x1 g, grad_y1 g))
     (map_gradients
        (getDisplacementMap ''lg-k3x9'' (Fin 100) (Fin 200)
           (param_radius (resolveParameters (box_200x100 Map.empty))) (Fin 10)))
     = [(Number (Fin 0), Percentage (Fin 3)), (Percentage (Fin 2), Number (Fin 0))]
   \<and> spec_leading_inset (Fin 10) (Fin 100) = Percentage (Fin 2)
   \<and> spec_leading_inset (Fin 10) (Fin 200) = Percentage (Fin 1)
   \<and> Percentage (Fin 3) \<noteq> spec_leading_inset (Fin 10) (Fin 100)
   \<and> Percentage (Fin 2) \<noteq> spec_leading_inset (Fin 10) (Fin 200)"
  by (simp add: getDisplacementMap_def resolve_defaults spec_leading_inset_def)

text \<open>
  C3, amended. For a box whose rounded height and width are integers from 1 to
  33554432 (\<open>2 ^ 25\<close>) pixels, the vertical gradient runs from \<open>ceil(16 / height * 15)\<close>
  percent to \<open>floor(100 - 16 / height * 15)\<close> percent and the horizontal one from
  \<open>ceil(16 / width * 15)\<close> percent to \<open>floor(100 - 16 / width * 15)\<close> percent, where 16
  is the fixed corner radius of every cycle; the depth plays no part in them. The
  bound keeps the statement where the exact arithmetic of the model and the binary64
  arithmetic of the code give the same integers: from an extent of about \<open>3.4e16\<close> on,
  the code's \<^verbatim>\<open>100 - x\<close> rounds to 100 and its trailing inset is 100 percent.
\<close>

theorem gradient_insets:
  assumes "1 \<le> h" and "h \<le> 33554432" and "1 \<le> w" and "w \<le> 33554432"
  shows "map (\<lambda>g. (grad_x1 g, grad_x2 g, grad_y1 g, grad_y2 g))
           (map_gradients
              (getDisplacementMap fid (Fin (of_int h)) (Fin (of_int w))
                 (param_radius (resolveParameters d)) depth)) =
         [(Number (Fin 0), Number (Fin 0),
           Percentage (Fin (of_int \<lceil>16 / of_int h * 15 :: rat\<rceil>)),
           Percentage (Fin (of_int \<lfloor>100 - 16 / of_int h * 15 :: rat\<rfloor>))),
          (Percentage (Fin (of_int \<lceil>16 / of_int w * 15 :: rat\<rceil>)),
           Percentage (Fin (of_int \<lfloor>100 - 16 / of_int w * 15 :: rat\<rfloor>)),
           Number (Fin 0), Number (Fin 0))]"
  using assms by (simp add: getDisplacementMap_def js_sub_def resolveParameters_def)

theorem gradient_insets_witness:
  "map (\<lambda>g. (grad_x1 g, grad_x2 g, grad_y1 g, grad_y2 g))
     (map_gradients
        (getDisplacementMap ''lg-k3x9'' (Fin 100) (Fin 200)
           (param_radius (resolveParameters (box_200x100 Map.empty))) (Fin 10))) =
   [(Number (Fin 0), Number (Fin 0), Percentage (Fin 3), Percentage (Fin 97)),
    (Percentage (Fin 2), Percentage (Fin 98), Number (Fin 0), Number (Fin 0))]"
  using gradient_insets [of 100 200 "''lg-k3x9''" "box_200x100 Map.empty" "Fin 10"]
  by simp

section \<open>Publishing the blur\<close>

lemma blur_does_not_change_key:
  "cacheKey (resolveParameters (box_200x100 blur_3)) =
   cacheKey (resolveParameters (box_200x100 Map.empty))"
  by (simp add: resolve_defaults resolve_blur_3 cacheKey_def)

lemma first_cycle:
  "updateFilter False (box_200x100 Map.empty) fresh_element =
     (after_first_cycle,
      [SetProperty ''--lg-blur'' (CssText ''2px''),
       RemoveProperty ''--lg-opacity'', RemoveProperty ''--lg-scale'',
       SetProperty ''--lg-filter''
         (CssUrl (getDisplacementFilter ''lg-k3x9'' (Fin 100) (Fin 200) (Fin 16) (Fin 10)
                    (Fin 100) (Fin 0)))])"
  by (simp add: updateFilter_def box_200x100_live box_200x100_attributes not_interactive
      Let_def after_first_cycle_def fresh_element_def blur_changed_def resolve_defaults
      toString_2)

lemma blur_3_cycle:
  "updateFilter False (box_200x100 blur_3) after_first_cycle =
     (after_first_cycle,
      [SetProperty ''--lg-blur'' (CssText ''3px''),
       RemoveProperty ''--lg-opacity'', RemoveProperty ''--lg-scale''])"
  by (simp add: updateFilter_def box_200x100_live box_200x100_attributes not_interactive
      Let_def after_first_cycle_def blur_does_not_change_key fresh_element_def
      blur_changed_def js_strict_eq_def)
    (simp add: resolve_blur_3 toString_3)

lemma default_cycle_again:
  "updateFilter False (box_200x100 Map.empty) after_first_cycle =
     (after_first_cycle, [RemoveProperty ''--lg-opacity'', RemoveProperty ''--lg-scale''])"
  by (simp add: updateFilter_def box_200x100_live box_200x100_attributes not_interactive
      Let_def after_first_cycle_def fresh_element_def blur_changed_def js_strict_eq_def)
    (simp add: resolve_defaults)

text \<open>
  C6. The code does not keep the claim. The blur last published is remembered only
  when the cycle regenerates the filter: a cycle that changes the blur alone publishes
  it and returns before \<^verbatim>\<open>_prev\<close> is updated. In three cycles on a 200 x 100 box, the
  first without a blur attribute and the next two with \<^verbatim>\<open>blur="3"\<close>, the third cycle
  publishes \<^verbatim>\<open>3px\<close> again although \<^verbatim>\<open>3px\<close> is the value last published. (The same
  stale \<^verbatim>\<open>_prev.blur\<close> makes a third cycle that goes back to the default blur publish
  nothing, so that \<^verbatim>\<open>3px\<close> stays published.)
\<close>

theorem unchanged_blur_is_published_again:
  "map (writes_to ''--lg-blur'')
     (run_cycles [box_200x100 Map.empty, box_200x100 blur_3, box_200x100 blur_3]
        fresh_element)
   = [[CssText ''2px''], [CssText ''3px''], [CssText ''3px'']]
   \<and> map (writes_to ''--lg-blur'')
       (run_cycles [box_200x100 Map.empty, box_200x100 blur_3, box_200x100 Map.empty]
          fresh_element)
     = [[CssText ''2px''], [CssText ''3px''], []]"
  by (simp add: first_cycle blur_3_cycle default_cycle_again)

section \<open>No filter without strength\<close>

lemma js_le_not_gt: "js_le x (Fin 0) \<Longrightarrow> \<not> js_gt x (Fin 0)"
  by (cases x) auto

text \<open>
  C7. In a cycle whose strength and chromatic aberration are both at most zero, no
  displacement filter is assembled, and the filter reference the cycle publishes is
  the literal \<^verbatim>\<open>none\<close>: it is published whenever the cycle is neither aborted nor
  skipped.
\<close>

theorem flat_parameters_publish_none:
  assumes "js_le (param_strength (resolveParameters d)) (Fin 0)"
    and "js_le (param_chromaticAberration (resolveParameters d)) (Fin 0)"
  shows "assembled_filters (snd (updateFilter force d el)) = []
       \<and> writes_to ''--lg-filter'' (snd (updateFilter force d el)) =
           (if js_not (bounding_width d) \<or> js_not (bounding_height d)
               \<or> (\<not> force \<and> prev_key el = Some (cacheKey (resolveParameters d)))
            then [] else [CssText ''none''])"
  using js_le_not_gt [OF assms(1)] js_le_not_gt [OF assms(2)]
  by (simp add: updateFilter_def Let_def writes_to_append assembled_filters_append)

theorem flat_parameters_publish_none_witness:
  "assembled_filters (snd (updateFilter False (box_200x100 flat) fresh_element)) = []
   \<and> writes_to ''--lg-filter'' (snd (updateFilter False (box_200x100 flat) fresh_element))
       = [CssText ''none'']"
proof -
  have s: "js_le (param_strength (resolveParameters (box_200x100 flat))) (Fin 0)"
    and c: "js_le (param_chromaticAberration (resolveParameters (box_200x100 flat))) (Fin 0)"
    by (simp_all add: resolve_flat)
  show ?thesis
    using flat_parameters_publish_none [OF s c, of False fresh_element]
    by (simp add: box_200x100_live fresh_element_def)
qed

section \<open>The stored key and the published reference\<close>

lemma published_filter_by_key:
  assumes "cacheKey (resolveParameters d1) = cacheKey (resolveParameters d2)"
  shows "published_filter el (resolveParameters d1) = published_filter el (resolveParameters d2)"
proof -
  have "param_radius (resolveParameters d1) = param_radius (resolveParameters d2)"
    by (simp add: resolveParameters_def)
  then show ?thesis
    using cacheKey_resolved_injective [OF assms] by (simp add: published_filter_def)
qed

lemma coherent_append:
  "writes_to ''--lg-filter'' ops = [] \<Longrightarrow> coherent el (hist @ ops) = coherent el hist"
  by (simp add: coherent_def writes_to_append split: option.split)

lemma coherent_initially: "prev_key el = None \<Longrightarrow> coherent el hist"
  by (simp add: coherent_def)

lemma coherent_aborted:
  assumes "coherent el hist" and "js_not (bounding_width d) \<or> js_not (bounding_height d)"
  shows "coherent (fst (updateFilter force d el)) (hist @ snd (updateFilter force d el))"
  using assms by (simp add: updateFilter_def)

text \<open>
  The stored key and the style channel stay together, and a cycle that is not aborted
  leaves the reference for its own parameters published, whether it regenerated it
  or skipped: the cache never skips a change of a parameter the reference depends on.
\<close>

lemma cycle_publishes_current_filter:
  assumes "coherent el hist"
    and "\<not> js_not (bounding_width d)" and "\<not> js_not (bounding_height d)"
  shows "coherent (fst (updateFilter force d el)) (hist @ snd (updateFilter force d el))
       \<and> writes_to ''--lg-filter'' (hist @ snd (updateFilter force d el)) \<noteq> []
       \<and> last (writes_to ''--lg-filter'' (hist @ snd (updateFilter force d el))) =
           published_filter el (resolveParameters d)"
proof (cases "\<not> force \<and> prev_key el = Some (cacheKey (resolveParameters d))")
  case True
  then obtain d0 where d0: "cacheKey (resolveParameters d) = cacheKey (resolveParameters d0)"
    and ne: "writes_to ''--lg-filter'' hist \<noteq> []"
    and l: "last (writes_to ''--lg-filter'' hist) = published_filter el (resolveParameters d0)"
    using assms(1) by (auto simp: coherent_def)
  have el: "fst (updateFilter force d el) = el"
    using True assms(2,3) by (subst updateFilter_cases) simp
  have w: "writes_to ''--lg-filter'' (snd (updateFilter force d el)) = []"
    using True by (simp add: filter_writes_of_cycle)
  show ?thesis
    using assms(1) ne l published_filter_by_key [OF d0, of el]
    by (simp add: el writes_to_append w coherent_append)
next
  case False
  have w: "writes_to ''--lg-filter'' (snd (updateFilter force d el)) =
      [published_filter el (resolveParameters d)]"
    using False assms(2,3) by (simp add: filter_writes_of_cycle)
  have el: "fst (updateFilter force d el) =
      el \<lparr> prev_key := Some (cacheKey (resolveParameters d)),
           prev_blur := Some (param_blur (resolveParameters d)) \<rparr>"
    using False assms(2,3) by (subst updateFilter_cases) auto
  have "coherent (fst (updateFilter force d el)) (hist @ snd (updateFilter force d el))"
    unfolding coherent_def el
    by (simp add: writes_to_append w published_filter_def) blast
  then show ?thesis
    by (simp add: writes_to_append w)
qed

text \<open>
  In particular a cycle with no strength and no chromatic aberration that is skipped
  leaves \<^verbatim>\<open>none\<close> published.
\<close>

lemma flat_cycle_leaves_none_published:
  assumes "coherent el hist"
    and "\<not> js_not (bounding_width d)" and "\<not> js_not (bounding_height d)"
    and "js_le (param_strength (resolveParameters d)) (Fin 0)"
    and "js_le (param_chromaticAberration (resolveParameters d)) (Fin 0)"
  shows "last (writes_to ''--lg-filter'' (hist @ snd (updateFilter force d el))) =
         CssText ''none''"
  using cycle_publishes_current_filter [OF assms(1,2,3), of force]
    js_le_not_gt [OF assms(4)] js_le_not_gt [OF assms(5)]
  by (simp add: published_filter_def)

section \<open>The assembled filter\<close>

text \<open>
  C8. The filter has three displacement passes, with scales
  \<open>strength + 2 * chromaticAberration\<close>, \<open>strength + chromaticAberration\<close> and
  \<open>strength\<close>, each applied to the source graphic; each pass goes through a colour
  matrix that keeps one of red, green and blue together with alpha; the three results
  are recombined by two \<^verbatim>\<open>screen\<close> blends.
\<close>

theorem filter_is_three_passes_screened:
  "displacement_scales
     (filter_primitives (filter_document (getDisplacementFilter fid h w r d s c))) =
   [js_add s (js_mul (Fin 2) c), js_add s c, s]
   \<and> filter_result Map.empty SourceGraphic
     (filter_primitives (filter_document (getDisplacementFilter fid h w r d s c))) =
   Blend ''screen''
     (Blend ''screen''
        (ColorMatrix [[1, 0, 0, 0, 0], [0, 0, 0, 0, 0], [0, 0, 0, 0, 0], [0, 0, 0, 1, 0]]
           (Displaced SourceGraphic (MapImage (getDisplacementMap fid h w r d))
              (js_add s (js_mul (Fin 2) c)) ''R'' ''G''))
        (ColorMatrix [[0, 0, 0, 0, 0], [0, 1, 0, 0, 0], [0, 0, 0, 0, 0], [0, 0, 0, 1, 0]]
           (Displaced SourceGraphic (MapImage (getDisplacementMap fid h w r d))
              (js_add s c) ''R'' ''G'')))
     (ColorMatrix [[0, 0, 0, 0, 0], [0, 0, 0, 0, 0], [0, 0, 1, 0, 0], [0, 0, 0, 1, 0]]
        (Displaced SourceGraphic (MapImage (getDisplacementMap fid h w r d)) s ''R'' ''G''))
   \<and> apply_color_matrix [[1, 0, 0, 0, 0], [0, 0, 0, 0, 0], [0, 0, 0, 0, 0], [0, 0, 0, 1, 0]]
        [red, green, blue, alpha] = [red, 0, 0, alpha]
   \<and> apply_color_matrix [[0, 0, 0, 0, 0], [0, 1, 0, 0, 0], [0, 0, 0, 0, 0], [0, 0, 0, 1, 0]]
        [red, green, blue, alpha] = [0, green, 0, alpha]
   \<and> apply_color_matrix [[0, 0, 0, 0, 0], [0, 0, 0, 0, 0], [0, 0, 1, 0, 0], [0, 0, 0, 1, 0]]
        [red, green, blue, alpha] = [0, 0, blue, alpha]"
proof -
  have "js_mul c (Fin 2) = js_mul (Fin 2) c"
    by (cases c) (simp_all add: mult.commute)
  then show ?thesis
    by (simp add: getDisplacementFilter_def named_input_def apply_color_matrix_def)
qed

section \<open>Coalescing resize signals\<close>



lemma recomputes_recompute: "recomputes (recompute d c) = recomputes c + 1"
  by (simp add: recompute_def)



section \<open>Probing once\<close>

lemma construct_all_probed:
  "construct_all cs (p \<lparr> class_advSupported := Some b \<rparr>) =
     (p \<lparr> class_advSupported := Some b \<rparr>,
      map (\<lambda>(env, fid). \<lparr> prev_key = None, prev_blur = None, advSupported = b,
                            filterId = fid \<rparr>) cs)"
  by (induction cs) (auto simp: construct_def)

text \<open>
  C10. However many instances are constructed, and whatever the environment would
  answer at each construction, the probe runs once, at the first construction; every
  instance carries the flag computed then; once the class holds a flag, further
  constructions neither change it nor probe again; and a probe that throws, like one
  that answers no, gives the flag \<open>False\<close>.
\<close>

theorem probe_runs_once:
  "probes (fst (construct_all cs initial_process)) = (if cs = [] then 0 else 1)
   \<and> map advSupported (snd (construct_all ((env, fid) # cs) initial_process)) =
       replicate (Suc (length cs)) (supportsAdvancedFilters env)
   \<and> class_advSupported (fst (construct_all ((env, fid) # cs) initial_process)) =
       Some (supportsAdvancedFilters env)
   \<and> fst (construct_all cs (p \<lparr> class_advSupported := Some b \<rparr>)) =
       p \<lparr> class_advSupported := Some b \<rparr>
   \<and> supportsAdvancedFilters Throws = False
   \<and> supportsAdvancedFilters (Answers False) = False"
proof -
  have first: "construct env' fid' initial_process =
      (initial_process \<lparr> class_advSupported := Some (supportsAdvancedFilters env'),
                          probes := Suc 0 \<rparr>,
       \<lparr> prev_key = None, prev_blur = None, advSupported = supportsAdvancedFilters env',
         filterId = fid' \<rparr>)" for env' fid'
    by (simp add: construct_def initial_process_def)
  have rest: "construct_all cs' (initial_process \<lparr> class_advSupported := Some b', probes := Suc 0 \<rparr>) =
      (initial_process \<lparr> class_advSupported := Some b', probes := Suc 0 \<rparr>,
       map (\<lambda>(env, fid). \<lparr> prev_key = None, prev_blur = None, advSupported = b',
                             filterId = fid \<rparr>) cs')" for cs' b'
    using construct_all_probed [where cs = cs' and p = "initial_process \<lparr> probes := Suc 0 \<rparr>" and b = b']
    by (simp add: initial_process_def)
  have all: "construct_all ((env', fid') # cs') initial_process =
      (initial_process \<lparr> class_advSupported := Some (supportsAdvancedFilters env'), probes := Suc 0 \<rparr>,
       \<lparr> prev_key = None, prev_blur = None, advSupported = supportsAdvancedFilters env',
         filterId = fid' \<rparr> #
       map (\<lambda>(env, fid). \<lparr> prev_key = None, prev_blur = None,
                             advSupported = supportsAdvancedFilters env', filterId = fid \<rparr>) cs')"
    for env' fid' cs'
    by (simp add: first rest)
  have once: "probes (fst (construct_all cs initial_process)) = (if cs = [] then 0 else 1)"
  proof (cases cs)
    case Nil
    then show ?thesis by (simp add: initial_process_def)
  next
    case (Cons a cs')
    then show ?thesis by (cases a) (simp add: all del: construct_all.simps)
  qed
  have flags: "map advSupported (snd (construct_all ((env, fid) # cs) initial_process)) =
       replicate (Suc (length cs)) (supportsAdvancedFilters env)"
    by (simp add: all comp_def case_prod_unfold map_replicate_const del: construct_all.simps)
  show ?thesis
    using once flags
    by (simp add: all construct_all_probed supportsAdvancedFilters_def
        del: construct_all.simps)
qed

end
